theory Spec2Isabelle
  imports Complex_Main "HOL-Library.Log_Nat"
begin

section \<open>JavaScript values\<close>

text \<open>
  A JavaScript number is NaN, an infinity or a finite value; the finite values are carried as
  rationals. Comparisons with NaN are false, as in the language.
\<close>

datatype jsnum = NaN | Fin rat | PosInf | NegInf

fun isNaN :: "jsnum \<Rightarrow> bool" where
  "isNaN NaN = True"
| "isNaN _ = False"

fun num_lt :: "jsnum \<Rightarrow> jsnum \<Rightarrow> bool" where
  "num_lt NaN _ = False"
| "num_lt _ NaN = False"
| "num_lt (Fin a) (Fin b) = (a < b)"
| "num_lt (Fin a) PosInf = True"
| "num_lt (Fin a) NegInf = False"
| "num_lt PosInf _ = False"
| "num_lt NegInf NegInf = False"
| "num_lt NegInf _ = True"

fun isInteger :: "jsnum \<Rightarrow> bool" where
  "isInteger (Fin r) = (of_int \<lfloor>r\<rfloor> = r)"
| "isInteger _ = False"

fun num_neg :: "jsnum \<Rightarrow> jsnum" where
  "num_neg NaN = NaN"
| "num_neg (Fin r) = Fin (- r)"
| "num_neg PosInf = NegInf"
| "num_neg NegInf = PosInf"

fun num_minus :: "jsnum \<Rightarrow> jsnum \<Rightarrow> jsnum" where
  "num_minus NaN _ = NaN"
| "num_minus _ NaN = NaN"
| "num_minus (Fin a) (Fin b) = Fin (a - b)"
| "num_minus (Fin a) PosInf = NegInf"
| "num_minus (Fin a) NegInf = PosInf"
| "num_minus PosInf PosInf = NaN"
| "num_minus PosInf _ = PosInf"
| "num_minus NegInf NegInf = NaN"
| "num_minus NegInf _ = NegInf"

text \<open>
  Where the value of an arithmetic result is kept (the percentages), it is that of IEEE 754
  doubles: the result of an operation is its exact value rounded to the nearest double, a
  tie going to the even significand. (The subtraction above is exact: it serves the
  comparators, which look only at the sign of a difference, and the rounded difference of
  two doubles has the sign of the exact one.) A finite double
  is carried as the rational that it is. \<open>binade a\<close> is the exponent \<open>e\<close> with
  \<open>2^e \<le> a < 2^(e+1)\<close> of a positive \<open>a\<close>; a double has 53 significant bits and no
  exponent below -1022, so the doubles around \<open>a\<close> are the multiples of
  \<open>2^(max e (-1022) - 52)\<close>. Rounding to an infinity is left out: \<open>double_round\<close> is
  used on quotients of a count by a total and on their products with 100, which are at
  most 100.
\<close>

definition round_half_even :: "rat \<Rightarrow> int" where
  "round_half_even y =
     (let f = \<lfloor>y\<rfloor>; d = y - of_int f in
      if d < 1 / 2 then f else if 1 / 2 < d then f + 1 else if even f then f else f + 1)"

definition binade :: "rat \<Rightarrow> int" where
  "binade a =
     (let (p, q) = quotient_of a; d = bitlen p - bitlen q in
      if a < 2 powi d then d - 1 else d)"

definition double_round :: "rat \<Rightarrow> rat" where
  "double_round x =
     (if x = 0 then 0
      else
        let a = \<bar>x\<bar>; ulp = 2 powi (max (binade a) (- 1022) - 52) in
        sgn x * of_int (round_half_even (a / ulp)) * ulp)"

text \<open>
  Strings are lists of code units below 256. The white space of \<^verbatim>\<open>\s\<close> and of
  \<^verbatim>\<open>String.prototype.trim\<close> in that range: tab, line feed, vertical tab, form feed,
  carriage return, space and the no-break space.
\<close>

definition is_space :: "char \<Rightarrow> bool" where
  "is_space c =
     (c \<in> set [CHR 0x09, CHR 0x0A, CHR 0x0B, CHR 0x0C, CHR 0x0D, CHR 0x20, CHR 0xA0])"

definition trim :: "string \<Rightarrow> string" where
  "trim s = rev (dropWhile is_space (rev (dropWhile is_space s)))"

text \<open>
  \<^verbatim>\<open>s.split(/[...]+/)\<close> for a pattern that matches the non-empty runs of one character
  class: the scan of \<^verbatim>\<open>RegExp.prototype[Symbol.split]\<close>. \<open>acc\<close> holds, reversed, the
  characters since the end of the last match; at a character of the class the greedy match
  takes the whole run, the text before it is emitted, and the scan continues behind the
  run. The text after the last match is emitted at the end, also when it is empty.
\<close>

function split_runs :: "(char \<Rightarrow> bool) \<Rightarrow> string \<Rightarrow> string \<Rightarrow> string list" where
  "split_runs sep acc [] = [rev acc]"
| "split_runs sep acc (c # cs) =
     (if sep c then rev acc # split_runs sep [] (dropWhile sep cs)
      else split_runs sep (c # acc) cs)"
  by pat_completeness auto
termination
  by (relation "measure (\<lambda>(sep, acc, s). length s)")
     (auto simp: le_imp_less_Suc length_dropWhile_le)

text \<open>
  \<^verbatim>\<open>Array.prototype.sort(comparefn)\<close> is a stable sort that looks only at the sign of
  \<^verbatim>\<open>comparefn(a, b)\<close>. The model is a stable insertion sort; its parameter \<open>gt a b\<close>
  stands for \<^verbatim>\<open>comparefn(a, b) > 0\<close>.
\<close>

fun insert_by :: "('a \<Rightarrow> 'a \<Rightarrow> bool) \<Rightarrow> 'a \<Rightarrow> 'a list \<Rightarrow> 'a list" where
  "insert_by gt x [] = [x]"
| "insert_by gt x (y # ys) = (if gt x y then y # insert_by gt x ys else x # y # ys)"

definition Array_sort :: "('a \<Rightarrow> 'a \<Rightarrow> bool) \<Rightarrow> 'a list \<Rightarrow> 'a list" where
  "Array_sort gt xs = foldr (insert_by gt) xs []"

text \<open>The comparator \<^verbatim>\<open>(a, b) => a - b\<close> on numbers, as the sign test the sort makes.\<close>

definition num_ascending :: "jsnum \<Rightarrow> jsnum \<Rightarrow> bool" where
  "num_ascending a b = num_lt (Fin 0) (num_minus a b)"

subsection \<open>\<^verbatim>\<open>Number(string)\<close>\<close>

text \<open>
  The conversion of a string to a number, after the grammar \<^verbatim>\<open>StringNumericLiteral\<close>:
  optional white space around an optionally signed decimal literal (digits, fraction,
  exponent, or \<^verbatim>\<open>Infinity\<close>) or an unsigned binary, octal or hexadecimal integer
  literal; the empty string is 0 and everything else is NaN. The value is the exact one:
  the rounding to a double is not modelled, and the theorems about the parser below hold
  for every conversion function, this one being the instance that the concrete
  evaluations use.
\<close>

definition is_digit :: "char \<Rightarrow> bool" where
  "is_digit c = (48 \<le> (of_char c :: nat) \<and> (of_char c :: nat) \<le> 57)"

definition digit_value :: "char \<Rightarrow> nat" where
  "digit_value c =
     (let n = of_char c in
      if 48 \<le> n \<and> n \<le> 57 then n - 48
      else if 97 \<le> n \<and> n \<le> 122 then n - 87
      else if 65 \<le> n \<and> n \<le> 90 then n - 55
      else 36)"

definition is_radix_digit :: "nat \<Rightarrow> char \<Rightarrow> bool" where
  "is_radix_digit b c = (digit_value c < b)"

definition digits_value :: "nat \<Rightarrow> string \<Rightarrow> nat" where
  "digits_value b ds = foldl (\<lambda>a c. a * b + digit_value c) 0 ds"

definition scale10 :: "nat \<Rightarrow> int \<Rightarrow> rat" where
  "scale10 m e = (if 0 \<le> e then of_nat m * 10 ^ nat e else of_nat m / 10 ^ nat (- e))"

definition ExponentPart :: "string \<Rightarrow> int option" where
  "ExponentPart s =
     (case s of
        [] \<Rightarrow> Some 0
      | c # r \<Rightarrow>
          if c = CHR ''e'' \<or> c = CHR ''E'' then
            (let (neg, ds) =
               (case r of
                  [] \<Rightarrow> (False, [])
                | d # r' \<Rightarrow>
                    if d = CHR ''+'' then (False, r')
                    else if d = CHR ''-'' then (True, r')
                    else (False, r))
             in if ds \<noteq> [] \<and> list_all is_digit ds
                then Some (if neg then - int (digits_value 10 ds) else int (digits_value 10 ds))
                else None)
          else None)"

definition StrUnsignedDecimalLiteral :: "string \<Rightarrow> jsnum" where
  "StrUnsignedDecimalLiteral s =
     (if s = ''Infinity'' then PosInf
      else
        let ip = takeWhile is_digit s;
            r1 = dropWhile is_digit s;
            (fp, r2) =
              (case r1 of
                 [] \<Rightarrow> ([], [])
               | c # r \<Rightarrow>
                   if c = CHR ''.'' then (takeWhile is_digit r, dropWhile is_digit r)
                   else ([], r1))
        in if ip = [] \<and> fp = [] then NaN
           else (case ExponentPart r2 of
                   None \<Rightarrow> NaN
                 | Some e \<Rightarrow> Fin (scale10 (digits_value 10 (ip @ fp)) (e - int (length fp)))))"

definition NonDecimalIntegerLiteral :: "string \<Rightarrow> jsnum option" where
  "NonDecimalIntegerLiteral s =
     (case s of
        z # x # ds \<Rightarrow>
          if z = CHR ''0'' then
            (let radix =
               (if x = CHR ''x'' \<or> x = CHR ''X'' then 16
                else if x = CHR ''o'' \<or> x = CHR ''O'' then 8
                else if x = CHR ''b'' \<or> x = CHR ''B'' then 2
                else (0::nat))
             in if radix = 0 then None
                else if ds \<noteq> [] \<and> list_all (is_radix_digit radix) ds
                then Some (Fin (of_nat (digits_value radix ds)))
                else Some NaN)
          else None
      | _ \<Rightarrow> None)"

definition StringToNumber :: "string \<Rightarrow> jsnum" where
  "StringToNumber str =
     (let s = trim str in
      case s of
        [] \<Rightarrow> Fin 0
      | c # r \<Rightarrow>
          (case NonDecimalIntegerLiteral s of
             Some n \<Rightarrow> n
           | None \<Rightarrow>
               if c = CHR ''+'' then StrUnsignedDecimalLiteral r
               else if c = CHR ''-'' then num_neg (StrUnsignedDecimalLiteral r)
               else StrUnsignedDecimalLiteral s))"

section \<open>Game catalogue (constants.ts)\<close>

record LottoGame =
  game_id :: string
  name :: string
  maxNumber :: int
  numbersToPick :: int
  digitMinNumber :: "int option"
  isOrderSignificant :: "bool option"
  drawDays :: "string option"

definition game_3d :: LottoGame where
  "game_3d =
     \<lparr> game_id = ''3d'', name = ''3 Digit Lotto (Swertres)'', maxNumber = 9,
       numbersToPick = 3, digitMinNumber = Some 0, isOrderSignificant = Some True,
       drawDays = Some ''Daily 2PM, 5PM, 9PM'' \<rparr>"

definition LOTTO_GAMES :: "LottoGame list" where
  "LOTTO_GAMES = [game_3d]"

definition DEFAULT_GAME_ID :: string where
  "DEFAULT_GAME_ID = game_id (hd LOTTO_GAMES)"

section \<open>Draw parser (LottoForm.tsx)\<close>

text \<open>
  \<^verbatim>\<open>validateAndParseDraw\<close> returns the numbers of the draw or a message. The messages
  are modelled by their kind, each with the raw input that the message quotes.
\<close>

datatype ValidationError =
    WrongCount string
  | NotNumeric string
  | OutOfRange string
  | DuplicateValue string

text \<open>The separator class of \<^verbatim>\<open>/[,-\s]+/\<close>: comma, hyphen and white space.\<close>

definition is_sep :: "char \<Rightarrow> bool" where
  "is_sep c = (c = CHR '','' \<or> c = CHR ''-'' \<or> is_space c)"

definition truthy_flag :: "bool option \<Rightarrow> bool" where
  "truthy_flag b = (b = Some True)"

definition validateAndParseDraw ::
  "(string \<Rightarrow> jsnum) \<Rightarrow> string \<Rightarrow> LottoGame \<Rightarrow> ValidationError + jsnum list" where
  "validateAndParseDraw Number input game =
     (let numbersStr = filter (\<lambda>s. s \<noteq> []) (map trim (split_runs is_sep [] input)) in
      if game_id game = ''3d'' then
        if length numbersStr \<noteq> 3 then Inl (WrongCount input)
        else
          let numbers = map Number numbersStr in
          if list_ex isNaN numbers then Inl (NotNumeric input)
          else if list_ex (\<lambda>n. num_lt n (Fin 0) \<or> num_lt (Fin 9) n \<or> \<not> isInteger n) numbers
          then Inl (OutOfRange input)
          else Inr numbers
      else
        if int (length numbersStr) \<noteq> numbersToPick game then Inl (WrongCount input)
        else
          let numbers = map Number numbersStr;
              lo = (case digitMinNumber game of None \<Rightarrow> 1 | Some m \<Rightarrow> m) in
          if list_ex isNaN numbers then Inl (NotNumeric input)
          else if list_ex (\<lambda>n. num_lt n (Fin (of_int lo)) \<or>
                                 num_lt (Fin (of_int (maxNumber game))) n \<or>
                                 \<not> isInteger n) numbers
          then Inl (OutOfRange input)
          else if \<not> truthy_flag (isOrderSignificant game) \<and>
                  length (remdups numbers) \<noteq> length numbers
          then Inl (DuplicateValue input)
          else Inr (if truthy_flag (isOrderSignificant game) then numbers
                    else Array_sort num_ascending numbers))"

text \<open>
  The specification's tokens, written from its words: the input is cut at every run of
  commas, hyphens and white space, and no token is empty; so the tokens are the maximal
  runs of other characters, from left to right.
\<close>

function spec_tokens :: "string \<Rightarrow> string list" where
  "spec_tokens [] = []"
| "spec_tokens (c # cs) =
     (if is_sep c then spec_tokens cs
      else (c # takeWhile (\<lambda>x. \<not> is_sep x) cs) #
           spec_tokens (dropWhile (\<lambda>x. \<not> is_sep x) cs))"
  by pat_completeness auto
termination
  by (relation "measure length") (auto simp: le_imp_less_Suc length_dropWhile_le)

subsection \<open>Batch input\<close>

text \<open>
  \<^verbatim>\<open>text.split(/\r\n|\n/)\<close>: at a carriage return followed by a line feed the first
  alternative matches both characters, at a line feed the second matches it, and a lone
  carriage return does not end a line.
\<close>

fun split_lines :: "string \<Rightarrow> string \<Rightarrow> string list" where
  "split_lines acc [] = [rev acc]"
| "split_lines acc [c] = (if c = CHR 0x0A then [rev acc, []] else [rev (c # acc)])"
| "split_lines acc (c # d # cs) =
     (if c = CHR 0x0D \<and> d = CHR 0x0A then rev acc # split_lines [] cs
      else if c = CHR 0x0A then rev acc # split_lines [] (d # cs)
      else split_lines (c # acc) (d # cs))"

text \<open>
  An entry of \<^verbatim>\<open>errors\<close> is the message
  \<^verbatim>\<open>Line ${index + 1} ('${line}'): ${result}\<close>, kept as its three parts.
\<close>

type_synonym line_error = "nat \<times> string \<times> ValidationError"

definition csv_lines :: "string \<Rightarrow> string list" where
  "csv_lines text = filter (\<lambda>line. length line > 0) (map trim (split_lines [] text))"

definition processCsvText ::
  "(string \<Rightarrow> jsnum) \<Rightarrow> string \<Rightarrow> LottoGame \<Rightarrow> jsnum list list \<times> line_error list" where
  "processCsvText Number text game =
     foldl (\<lambda>(parsedDraws, errors) (index, line).
              case validateAndParseDraw Number line game of
                Inl result \<Rightarrow> (parsedDraws, errors @ [(index + 1, line, result)])
              | Inr result \<Rightarrow> (parsedDraws @ [result], errors))
       ([], []) (enumerate 0 (csv_lines text))"

text \<open>
  What the \<^verbatim>\<open>onload\<close> callback of \<^verbatim>\<open>handleFileUpload\<close> does with the file's text:
  one of its four messages, or the draws it hands to \<^verbatim>\<open>onAddMultipleDraws\<close>. The error
  report is \<^verbatim>\<open>errors.slice(0, 5)\<close> and, when there are more than five errors, the number
  of the others.
\<close>

datatype FileError =
    CouldNotRead
  | ErrorsInCsv "line_error list" "nat option"
  | NoValidDraws
  | EmptyFile

definition error_report :: "line_error list \<Rightarrow> line_error list \<times> nat option" where
  "error_report errors =
     (take 5 errors, if length errors > 5 then Some (length errors - 5) else None)"

definition handleFileUpload ::
  "(string \<Rightarrow> jsnum) \<Rightarrow> string \<Rightarrow> LottoGame \<Rightarrow> FileError + jsnum list list" where
  "handleFileUpload Number text game =
     (if text = [] then Inl CouldNotRead
      else
        let (parsedDraws, errors) = processCsvText Number text game in
        if length errors > 0
        then Inl (ErrorsInCsv (fst (error_report errors)) (snd (error_report errors)))
        else if length parsedDraws = 0 \<and> length (csv_lines text) > 0 then Inl NoValidDraws
        else if length parsedDraws = 0 then Inl EmptyFile
        else Inr parsedDraws)"

section \<open>Prediction service (geminiService.ts)\<close>

text \<open>
  A draw in the application state has passed \<^verbatim>\<open>validateAndParseDraw\<close>, so its numbers
  are integers; the state carries them as such.
\<close>

type_synonym DrawResult = "int list"

definition as_draw :: "jsnum list \<Rightarrow> DrawResult" where
  "as_draw numbers = map (\<lambda>n. case n of Fin r \<Rightarrow> \<lfloor>r\<rfloor> | _ \<Rightarrow> 0) numbers"

subsection \<open>The request\<close>

text \<open>
  The prompt is one of two fixed templates; the model keeps which one, and the values
  interpolated into it (the draws are rendered as \<^verbatim>\<open>d1-d2-d3; ...\<close>, oldest first).
\<close>

datatype Prompt =
    Prompt3d "DrawResult list"
  | PromptOther string int int int "DrawResult list"

record GenerateContentRequest =
  model :: string
  contents :: Prompt
  responseMimeType :: string
  temperature :: rat

definition GEMINI_MODEL_TEXT :: string where
  "GEMINI_MODEL_TEXT = ''gemini-2.5-flash-preview-04-17''"

definition build_prompt :: "LottoGame \<Rightarrow> DrawResult list \<Rightarrow> Prompt" where
  "build_prompt game recentDrawsChronological =
     (if game_id game = ''3d'' then Prompt3d recentDrawsChronological
      else PromptOther (name game) (numbersToPick game)
             (case digitMinNumber game of None \<Rightarrow> 1 | Some m \<Rightarrow> m) (maxNumber game)
             recentDrawsChronological)"

definition build_request :: "LottoGame \<Rightarrow> DrawResult list \<Rightarrow> GenerateContentRequest" where
  "build_request game recentDrawsChronological =
     \<lparr> model = GEMINI_MODEL_TEXT, contents = build_prompt game recentDrawsChronological,
       responseMimeType = ''application/json'', temperature = 7 / 10 \<rparr>"

text \<open>
  What the awaited call yields: a response whose \<^verbatim>\<open>text\<close> may be undefined, or a thrown
  value (a \<^verbatim>\<open>SyntaxError\<close>, another \<^verbatim>\<open>Error\<close>, or something that is no
  \<^verbatim>\<open>Error\<close>), the errors with their messages.
\<close>

datatype Thrown = ThrownSyntaxError string | ThrownError string | ThrownOther

datatype ServiceOutcome = Responded "string option" | Threw Thrown

subsection \<open>Stripping the code fence\<close>

text \<open>
  The match of \<^verbatim>\<open>/^```(\w*)?\s*\n?(.*?)\n?\s*```$/s\<close> against the trimmed response, as a
  backtracking matcher in continuation style: each piece of the pattern gets the rest of
  the input and the matcher of what follows it, and tries its alternatives in the order
  of the language (a greedy piece the longer match first, the lazy group the shorter
  first). The result is the second group of the first match found.
\<close>

definition is_word :: "char \<Rightarrow> bool" where
  "is_word c =
     (let n = (of_char c :: nat) in
      (48 \<le> n \<and> n \<le> 57) \<or> (65 \<le> n \<and> n \<le> 90) \<or> (97 \<le> n \<and> n \<le> 122) \<or> n = 95)"

fun star_greedy :: "(char \<Rightarrow> bool) \<Rightarrow> (string \<Rightarrow> 'r option) \<Rightarrow> string \<Rightarrow> 'r option" where
  "star_greedy P k [] = k []"
| "star_greedy P k (c # cs) =
     (if P c then (case star_greedy P k cs of Some r \<Rightarrow> Some r | None \<Rightarrow> k (c # cs))
      else k (c # cs))"

fun opt_char :: "char \<Rightarrow> (string \<Rightarrow> 'r option) \<Rightarrow> string \<Rightarrow> 'r option" where
  "opt_char x k [] = k []"
| "opt_char x k (c # cs) =
     (if c = x then (case k cs of Some r \<Rightarrow> Some r | None \<Rightarrow> k (c # cs))
      else k (c # cs))"

fun lazy_any :: "string \<Rightarrow> (string \<Rightarrow> string \<Rightarrow> 'r option) \<Rightarrow> string \<Rightarrow> 'r option" where
  "lazy_any acc k [] = k (rev acc) []"
| "lazy_any acc k (c # cs) =
     (case k (rev acc) (c # cs) of Some r \<Rightarrow> Some r | None \<Rightarrow> lazy_any (c # acc) k cs)"

definition literal :: "string \<Rightarrow> (string \<Rightarrow> 'r option) \<Rightarrow> string \<Rightarrow> 'r option" where
  "literal lit k s = (if take (length lit) s = lit then k (drop (length lit) s) else None)"

definition end_of_input :: "'r \<Rightarrow> string \<Rightarrow> 'r option" where
  "end_of_input r s = (if s = [] then Some r else None)"

definition fence :: string where
  "fence = [CHR 0x60, CHR 0x60, CHR 0x60]"

definition fence_tail :: "string \<Rightarrow> string \<Rightarrow> string option" where
  "fence_tail group2 =
     opt_char (CHR 0x0A) (star_greedy is_space (literal fence (end_of_input group2)))"

definition fenceRegex_match :: "string \<Rightarrow> string option" where
  "fenceRegex_match =
     literal fence
       (star_greedy is_word
         (star_greedy is_space
           (opt_char (CHR 0x0A)
             (lazy_any [] fence_tail))))"

definition strip_fence :: "string \<Rightarrow> string" where
  "strip_fence text =
     (let jsonStr = trim text in
      case fenceRegex_match jsonStr of
        None \<Rightarrow> jsonStr
      | Some group2 \<Rightarrow> if group2 \<noteq> [] then trim group2 else jsonStr)"

text \<open>
  The fenced form of a text \<open>s\<close>: the opening fence with a label (\<^verbatim>\<open>json\<close>, or none), a
  line feed, \<open>s\<close>, a line feed and the closing fence.
\<close>

definition fenced :: "string \<Rightarrow> string \<Rightarrow> string" where
  "fenced label s = fence @ label @ [CHR 0x0A] @ s @ [CHR 0x0A] @ fence"

subsection \<open>Validating the parsed response\<close>

datatype json =
    JNull
  | JBool bool
  | JNum jsnum
  | JStr string
  | JArr "json list"
  | JObj "(string \<times> json) list"

record GeminiPrediction =
  predictedNumbers :: "json list"
  analysisSummary :: json

text \<open>
  The errors of the service, by message: \<open>ClientNotInitialized\<close> is thrown before the
  \<^verbatim>\<open>try\<close>; inside it, a \<^verbatim>\<open>SyntaxError\<close> becomes \<open>ParseFailed\<close>, another
  \<^verbatim>\<open>Error\<close> becomes \<open>Failed\<close> with its message, and any other thrown value
  \<open>UnknownFailure\<close>. \<open>InvalidDigit\<close> carries the value and the 1-based position that the
  message names.
\<close>

datatype Reason =
    InvalidStructure
  | WrongDigitCount nat
  | InvalidDigit json nat
  | WrongNumberCount nat int
  | InvalidNumber json int int
  | NotUnique int nat
  | NoResponseText
  | NullResponse
  | External string

datatype PredictionError =
    ClientNotInitialized
  | ParseFailed string
  | Failed Reason
  | UnknownFailure

text \<open>
  Reading a property of the parsed value: a \<^verbatim>\<open>TypeError\<close> on \<^verbatim>\<open>null\<close>, the last
  member of that name on an object, \<^verbatim>\<open>undefined\<close> on everything else.
\<close>

fun get_prop :: "json \<Rightarrow> string \<Rightarrow> Reason + json option" where
  "get_prop JNull key = Inl NullResponse"
| "get_prop (JObj members) key = Inr (map_of (rev members) key)"
| "get_prop _ key = Inr None"

fun truthy :: "json option \<Rightarrow> bool" where
  "truthy None = False"
| "truthy (Some JNull) = False"
| "truthy (Some (JBool b)) = b"
| "truthy (Some (JNum n)) = (n \<noteq> Fin 0 \<and> \<not> isNaN n)"
| "truthy (Some (JStr s)) = (s \<noteq> [])"
| "truthy (Some (JArr xs)) = True"
| "truthy (Some (JObj members)) = True"

fun isArray :: "json option \<Rightarrow> bool" where
  "isArray (Some (JArr xs)) = True"
| "isArray _ = False"

fun array_items :: "json option \<Rightarrow> json list" where
  "array_items (Some (JArr xs)) = xs"
| "array_items _ = []"

fun invalid_in_range :: "int \<Rightarrow> int \<Rightarrow> json \<Rightarrow> bool" where
  "invalid_in_range lo hi (JNum n) =
     (num_lt n (Fin (of_int lo)) \<or> num_lt (Fin (of_int hi)) n \<or> \<not> isInteger n)"
| "invalid_in_range lo hi _ = True"

text \<open>\<^verbatim>\<open>forEach\<close> with a callback that may throw: the first throw ends the loop.\<close>

fun forEach_throw :: "('a \<Rightarrow> nat \<Rightarrow> 'e option) \<Rightarrow> nat \<Rightarrow> 'a list \<Rightarrow> 'e option" where
  "forEach_throw f index [] = None"
| "forEach_throw f index (x # xs) =
     (case f x index of Some e \<Rightarrow> Some e | None \<Rightarrow> forEach_throw f (Suc index) xs)"

text \<open>\<^verbatim>\<open>Array.from(new Set(xs))\<close>: the first occurrence of every value, in order.\<close>

fun unique_in_order :: "'a list \<Rightarrow> 'a list \<Rightarrow> 'a list" where
  "unique_in_order seen [] = rev seen"
| "unique_in_order seen (x # xs) =
     (if x \<in> set seen then unique_in_order seen xs else unique_in_order (x # seen) xs)"

fun json_ascending :: "json \<Rightarrow> json \<Rightarrow> bool" where
  "json_ascending (JNum a) (JNum b) = num_ascending a b"
| "json_ascending _ _ = False"

definition validate_prediction :: "LottoGame \<Rightarrow> json \<Rightarrow> Reason + GeminiPrediction" where
  "validate_prediction game parsedData =
     (case get_prop parsedData ''predictedNumbers'' of
        Inl e \<Rightarrow> Inl e
      | Inr numbers \<Rightarrow>
         (case get_prop parsedData ''analysisSummary'' of
            Inl e \<Rightarrow> Inl e
          | Inr summary \<Rightarrow>
              if \<not> truthy numbers \<or> \<not> truthy summary \<or> \<not> isArray numbers
              then Inl InvalidStructure
              else
                let xs = array_items numbers;
                    text = (case summary of Some v \<Rightarrow> v | None \<Rightarrow> JNull) in
                if game_id game = ''3d'' then
                  if length xs \<noteq> 3 then Inl (WrongDigitCount (length xs))
                  else
                    (case forEach_throw
                            (\<lambda>num index. if invalid_in_range 0 9 num
                                           then Some (InvalidDigit num (index + 1)) else None)
                            0 xs of
                       Some e \<Rightarrow> Inl e
                     | None \<Rightarrow> Inr \<lparr> predictedNumbers = xs, analysisSummary = text \<rparr>)
                else
                  let lo = (case digitMinNumber game of None \<Rightarrow> 1 | Some m \<Rightarrow> m) in
                  if int (length xs) \<noteq> numbersToPick game
                  then Inl (WrongNumberCount (length xs) (numbersToPick game))
                  else
                    (case forEach_throw
                            (\<lambda>num index. if invalid_in_range lo (maxNumber game) num
                                           then Some (InvalidNumber num lo (maxNumber game))
                                           else None)
                            0 xs of
                       Some e \<Rightarrow> Inl e
                     | None \<Rightarrow>
                         let uniqueSortedNumbers =
                               Array_sort json_ascending (unique_in_order [] xs) in
                         if int (length uniqueSortedNumbers) \<noteq> numbersToPick game
                         then Inl (NotUnique (numbersToPick game) (length uniqueSortedNumbers))
                         else Inr \<lparr> predictedNumbers = uniqueSortedNumbers,
                                    analysisSummary = text \<rparr>)))"

text \<open>
  The body of the \<^verbatim>\<open>try\<close> from the awaited response on, with the \<^verbatim>\<open>catch\<close> that
  rewraps what was thrown. \<open>JSON_parse\<close> is \<^verbatim>\<open>JSON.parse\<close>: the parsed value, or the
  message of its \<^verbatim>\<open>SyntaxError\<close>.
\<close>

definition handle_response ::
  "(string \<Rightarrow> string + json) \<Rightarrow> LottoGame \<Rightarrow> ServiceOutcome \<Rightarrow> PredictionError + GeminiPrediction"
  where
  "handle_response JSON_parse game outcome =
     (case outcome of
        Threw (ThrownSyntaxError msg) \<Rightarrow> Inl (ParseFailed msg)
      | Threw (ThrownError msg) \<Rightarrow> Inl (Failed (External msg))
      | Threw ThrownOther \<Rightarrow> Inl UnknownFailure
      | Responded None \<Rightarrow> Inl (Failed NoResponseText)
      | Responded (Some text) \<Rightarrow>
          (case JSON_parse (strip_fence text) of
             Inl msg \<Rightarrow> Inl (ParseFailed msg)
           | Inr parsedData \<Rightarrow>
               (case validate_prediction game parsedData of
                  Inl e \<Rightarrow> Inl (Failed e)
                | Inr prediction \<Rightarrow> Inr prediction)))"

text \<open>
  \<^verbatim>\<open>ai\<close> is the client when \<^verbatim>\<open>API_KEY\<close> is set and not empty, and \<^verbatim>\<open>null\<close>
  otherwise. The client is the function that answers a request.
\<close>

definition make_ai ::
  "(string \<Rightarrow> GenerateContentRequest \<Rightarrow> ServiceOutcome) \<Rightarrow> string option \<Rightarrow>
   (GenerateContentRequest \<Rightarrow> ServiceOutcome) option" where
  "make_ai GoogleGenAI API_KEY =
     (case API_KEY of
        None \<Rightarrow> None
      | Some key \<Rightarrow> if key = [] then None else Some (GoogleGenAI key))"

text \<open>
  \<^verbatim>\<open>getGeminiPrediction\<close>: the requests it sent to the service, and its result.
\<close>

definition getGeminiPrediction ::
  "(GenerateContentRequest \<Rightarrow> ServiceOutcome) option \<Rightarrow> (string \<Rightarrow> string + json) \<Rightarrow>
   LottoGame \<Rightarrow> DrawResult list \<Rightarrow>
   GenerateContentRequest list \<times> (PredictionError + GeminiPrediction)" where
  "getGeminiPrediction ai JSON_parse game recentDrawsChronological =
     (case ai of
        None \<Rightarrow> ([], Inl ClientNotInitialized)
      | Some generateContent \<Rightarrow>
          let request = build_request game recentDrawsChronological in
          ([request], handle_response JSON_parse game (generateContent request)))"

text \<open>The specification's names for the errors of the service.\<close>

datatype ErrorKind = ServiceUnavailable | MalformedResponse | InvalidPredictionValue | CallFailure

fun error_kind :: "PredictionError \<Rightarrow> ErrorKind" where
  "error_kind ClientNotInitialized = ServiceUnavailable"
| "error_kind (ParseFailed msg) = MalformedResponse"
| "error_kind (Failed InvalidStructure) = MalformedResponse"
| "error_kind (Failed NoResponseText) = MalformedResponse"
| "error_kind (Failed NullResponse) = MalformedResponse"
| "error_kind (Failed (External msg)) = CallFailure"
| "error_kind (Failed r) = InvalidPredictionValue"
| "error_kind UnknownFailure = CallFailure"

section \<open>Application state (App.tsx)\<close>

record FrequencyData =
  number :: int
  count :: nat
  percentage :: rat

datatype AiError = NeedMoreDraws | Message PredictionError

text \<open>
  The state of the component, without the theme. \<open>pending\<close> is not a state variable: it
  lists the calls of \<^verbatim>\<open>getGeminiPrediction\<close> that await the service, each with the
  game and the draws its closure captured.
\<close>

record AppState =
  selectedGameId :: string
  recentDraws :: "DrawResult list"
  frequencyData :: "FrequencyData list"
  hotDigitsPrediction :: "int list"
  geminiPrediction :: "GeminiPrediction option"
  isLoadingAiPrediction :: bool
  aiError :: "AiError option"
  pending :: "(LottoGame \<times> DrawResult list) list"

definition initial_state :: AppState where
  "initial_state =
     \<lparr> selectedGameId = DEFAULT_GAME_ID, recentDraws = [], frequencyData = [],
       hotDigitsPrediction = [], geminiPrediction = None, isLoadingAiPrediction = False,
       aiError = None, pending = [] \<rparr>"

definition selectedGame :: "AppState \<Rightarrow> LottoGame" where
  "selectedGame st =
     (case find (\<lambda>game. game_id game = selectedGameId st) LOTTO_GAMES of
        Some game \<Rightarrow> game
      | None \<Rightarrow> hd LOTTO_GAMES)"

subsection \<open>Collection handlers\<close>

definition handleGameChange :: "string \<Rightarrow> AppState \<Rightarrow> AppState" where
  "handleGameChange gameId st =
     st\<lparr> selectedGameId := gameId, recentDraws := [], frequencyData := [],
         hotDigitsPrediction := [], geminiPrediction := None, aiError := None \<rparr>"

definition handleAddDraw :: "DrawResult \<Rightarrow> AppState \<Rightarrow> AppState" where
  "handleAddDraw draw st = st\<lparr> recentDraws := draw # recentDraws st \<rparr>"

definition handleAddMultipleDraws :: "DrawResult list \<Rightarrow> AppState \<Rightarrow> AppState" where
  "handleAddMultipleDraws draws st = st\<lparr> recentDraws := rev draws @ recentDraws st \<rparr>"

text \<open>
  \<^verbatim>\<open>prevDraws.filter((_, index) => index !== indexToRemove)\<close>; the index to remove is any
  integer.
\<close>

definition handleRemoveDraw :: "int \<Rightarrow> AppState \<Rightarrow> AppState" where
  "handleRemoveDraw indexToRemove st =
     st\<lparr> recentDraws :=
           map snd (filter (\<lambda>(index, draw). int index \<noteq> indexToRemove)
                      (enumerate 0 (recentDraws st))) \<rparr>"

definition handleClearDraws :: "AppState \<Rightarrow> AppState" where
  "handleClearDraws st =
     st\<lparr> recentDraws := [], frequencyData := [], hotDigitsPrediction := [],
         geminiPrediction := None, aiError := None \<rparr>"

subsection \<open>The frequency effect\<close>

text \<open>
  \<^verbatim>\<open>overallCounts\<close> is an object keyed by the digits. The model keeps its properties in
  insertion order, keyed by the integer whose decimal rendering is the property name
  (a number prints in decimal below \<open>10^21\<close>, far above any value of a draw, and
  \<^verbatim>\<open>parseInt\<close> reads it back). \<^verbatim>\<open>Object.entries\<close> lists the array-index keys (the
  integers from 0 to \<open>2^32 - 2\<close>) first, in ascending order, then the other keys in
  insertion order.
\<close>

fun increment :: "(int \<times> nat) list \<Rightarrow> int \<Rightarrow> (int \<times> nat) list" where
  "increment [] num = [(num, 1)]"
| "increment ((k, c) # rest) num =
     (if k = num then (k, c + 1) # rest else (k, c) # increment rest num)"

definition is_array_index :: "int \<Rightarrow> bool" where
  "is_array_index k = (0 \<le> k \<and> k < 2 ^ 32 - 1)"

definition Object_entries :: "(int \<times> nat) list \<Rightarrow> (int \<times> nat) list" where
  "Object_entries obj =
     sort_key fst (filter (\<lambda>(k, v). is_array_index k) obj) @
     filter (\<lambda>(k, v). \<not> is_array_index k) obj"

text \<open>\<^verbatim>\<open>xs.slice(0, end)\<close>: a negative end counts from the end of the array.\<close>

definition slice0 :: "int \<Rightarrow> 'a list \<Rightarrow> 'a list" where
  "slice0 end_index xs =
     (let len = int (length xs);
          final = (if end_index < 0 then max (len + end_index) 0 else min end_index len)
      in take (nat final) xs)"

text \<open>
  The comparator \<^verbatim>\<open>b.count - a.count || a.number - b.number\<close>. The counts are
  integers, which doubles hold exactly below \<open>2^53\<close>.
\<close>

definition frequency_compare :: "FrequencyData \<Rightarrow> FrequencyData \<Rightarrow> int" where
  "frequency_compare a b =
     (let by_count = int (count b) - int (count a) in
      if by_count \<noteq> 0 then by_count else number a - number b)"

definition tally :: "DrawResult list \<Rightarrow> (int \<times> nat) list \<times> nat" where
  "tally draws =
     foldl (\<lambda>acc draw.
              foldl (\<lambda>(overallCounts, totalDigitsAnalyzed) num.
                       (increment overallCounts num, totalDigitsAnalyzed + 1)) acc draw)
       ([], 0) draws"

text \<open>
  The callback that turns a property and its count into an entry of the list. The
  percentage \<^verbatim>\<open>(count / totalDigitsAnalyzed) * 100\<close> is a double: the quotient is rounded,
  and its product with 100 is rounded again.
\<close>

definition entry_of :: "nat \<Rightarrow> int \<times> nat \<Rightarrow> FrequencyData" where
  "entry_of totalDigitsAnalyzed =
     (\<lambda>(num, cnt).
        \<lparr> number = num, count = cnt,
          percentage =
            (if totalDigitsAnalyzed > 0
             then double_round (double_round (of_nat cnt / of_nat totalDigitsAnalyzed) * 100)
             else 0) \<rparr>)"

definition frequency_entries :: "DrawResult list \<Rightarrow> FrequencyData list" where
  "frequency_entries draws =
     (let (overallCounts, totalDigitsAnalyzed) = tally draws in
      Array_sort (\<lambda>a b. 0 < frequency_compare a b)
        (map (entry_of totalDigitsAnalyzed) (Object_entries overallCounts)))"

definition hot_digits :: "int \<Rightarrow> FrequencyData list \<Rightarrow> int list" where
  "hot_digits toPick newFrequencyData =
     Array_sort (\<lambda>a b. 0 < a - b) (map number (slice0 toPick newFrequencyData))"

definition frequency_effect :: "AppState \<Rightarrow> AppState" where
  "frequency_effect st =
     (if length (recentDraws st) = 0
      then st\<lparr> frequencyData := [], hotDigitsPrediction := [] \<rparr>
      else
        let newFrequencyData = frequency_entries (recentDraws st);
            topHotDigits = hot_digits (numbersToPick (selectedGame st)) newFrequencyData
        in st\<lparr> frequencyData := newFrequencyData, hotDigitsPrediction := topHotDigits,
                geminiPrediction := None, aiError := None \<rparr>)"

subsection \<open>Requesting a prediction\<close>

text \<open>
  \<^verbatim>\<open>handleGetGeminiPrediction\<close> up to its \<^verbatim>\<open>await\<close>, and from the settled promise on.
  When there is no client, \<^verbatim>\<open>getGeminiPrediction\<close> throws before it calls anything, and
  the handler finishes at once.
\<close>

definition finish_prediction ::
  "PredictionError + GeminiPrediction \<Rightarrow> AppState \<Rightarrow> AppState" where
  "finish_prediction result st =
     (case result of
        Inr prediction \<Rightarrow>
          st\<lparr> geminiPrediction := Some prediction, isLoadingAiPrediction := False \<rparr>
      | Inl error \<Rightarrow>
          st\<lparr> aiError := Some (Message error), isLoadingAiPrediction := False \<rparr>)"

definition handleGetGeminiPrediction :: "bool \<Rightarrow> AppState \<Rightarrow> AppState" where
  "handleGetGeminiPrediction ai_present st =
     (if length (recentDraws st) < 3 then st\<lparr> aiError := Some NeedMoreDraws \<rparr>
      else
        let started = st\<lparr> isLoadingAiPrediction := True, aiError := None,
                           geminiPrediction := None \<rparr>;
            orderedRecentDrawsForApi = rev (recentDraws st)
        in if ai_present
           then started\<lparr> pending := pending st @ [(selectedGame st, orderedRecentDrawsForApi)] \<rparr>
           else finish_prediction (Inl ClientNotInitialized) started)"

definition prediction_settled ::
  "(string \<Rightarrow> string + json) \<Rightarrow> ServiceOutcome \<Rightarrow> AppState \<Rightarrow> AppState" where
  "prediction_settled JSON_parse outcome st =
     (case pending st of
        [] \<Rightarrow> st
      | (game, draws) # others \<Rightarrow>
          finish_prediction (handle_response JSON_parse game outcome) (st\<lparr> pending := others \<rparr>))"

text \<open>
  The events of the page. Every collection handler stores a new array, so the frequency
  effect (whose dependencies are the draws and the selected game) runs after it; the
  prediction handler and the settling of a call leave the dependencies alone.
\<close>

datatype Event =
    GameChange string
  | AddDraw DrawResult
  | AddMultipleDraws "DrawResult list"
  | RemoveDraw int
  | ClearDraws
  | GetGeminiPrediction
  | ServiceSettles ServiceOutcome

fun step :: "bool \<Rightarrow> (string \<Rightarrow> string + json) \<Rightarrow> AppState \<Rightarrow> Event \<Rightarrow> AppState" where
  "step ai_present JSON_parse st (GameChange gameId) = frequency_effect (handleGameChange gameId st)"
| "step ai_present JSON_parse st (AddDraw draw) = frequency_effect (handleAddDraw draw st)"
| "step ai_present JSON_parse st (AddMultipleDraws draws) =
     frequency_effect (handleAddMultipleDraws draws st)"
| "step ai_present JSON_parse st (RemoveDraw i) = frequency_effect (handleRemoveDraw i st)"
| "step ai_present JSON_parse st ClearDraws = frequency_effect (handleClearDraws st)"
| "step ai_present JSON_parse st GetGeminiPrediction = handleGetGeminiPrediction ai_present st"
| "step ai_present JSON_parse st (ServiceSettles outcome) = prediction_settled JSON_parse outcome st"

definition run :: "bool \<Rightarrow> (string \<Rightarrow> string + json) \<Rightarrow> AppState \<Rightarrow> Event list \<Rightarrow> AppState" where
  "run ai_present JSON_parse st events = foldl (step ai_present JSON_parse) st events"

section \<open>Properties of the draw parser\<close>

lemma dropWhile_none: "\<forall>c\<in>set s. \<not> P c \<Longrightarrow> dropWhile P s = s"
  by (cases s) auto

lemma trim_no_space: "\<forall>c\<in>set s. \<not> is_space c \<Longrightarrow> trim s = s"
  by (simp add: trim_def dropWhile_none)

lemma spec_tokens_dropWhile: "spec_tokens (dropWhile is_sep s) = spec_tokens s"
  by (induction s) auto

lemma spec_tokens_run_end:
  assumes "\<forall>c\<in>set t. \<not> is_sep c" and "t \<noteq> []"
  shows "spec_tokens t = [t]"
proof -
  from assms obtain a t' where t: "t = a # t'" by (cases t) auto
  with assms show ?thesis by (simp add: takeWhile_eq_all_conv[THEN iffD2] dropWhile_eq_Nil_conv[THEN iffD2])
qed

lemma spec_tokens_run_sep:
  assumes "\<forall>c\<in>set t. \<not> is_sep c" and "t \<noteq> []" and "is_sep c"
  shows "spec_tokens (t @ c # cs) = t # spec_tokens cs"
proof -
  from assms obtain a t' where t: "t = a # t'" by (cases t) auto
  with assms show ?thesis by (simp add: takeWhile_append2 dropWhile_append2 takeWhile_tail)
qed

lemma tokens_split:
  "\<forall>c\<in>set acc. \<not> is_sep c \<Longrightarrow>
     filter (\<lambda>s. s \<noteq> []) (map trim (split_runs is_sep acc s)) = spec_tokens (rev acc @ s)"
proof (induction "is_sep" acc s rule: split_runs.induct)
  case (1 acc)
  have "trim (rev acc) = rev acc"
    using 1 by (intro trim_no_space) (auto simp: is_sep_def)
  then show ?case using 1 by (cases "acc = []") (simp_all add: spec_tokens_run_end)
next
  case (2 acc c cs)
  have tr: "trim (rev acc) = rev acc"
    using 2(3) by (intro trim_no_space) (auto simp: is_sep_def)
  show ?case
  proof (cases "is_sep c")
    case True
    with 2 tr show ?thesis
      by (cases "acc = []") (simp_all add: spec_tokens_run_sep spec_tokens_dropWhile)
  next
    case False
    with 2 show ?thesis by simp
  qed
qed

text \<open>
  C1. For the game with id \<^verbatim>\<open>3d\<close> (three digits, each 0 to 9, order significant) and
  every raw input line, \<^verbatim>\<open>validateAndParseDraw\<close> works on the specification's tokens
  (the maximal runs of characters other than comma, hyphen and white space): it fails with
  \<open>WrongCount\<close> when there are not exactly 3 tokens; otherwise with \<open>NotNumeric\<close> when
  some token converts to NaN; otherwise with \<open>OutOfRange\<close> when some value is below 0, above
  9 or not integral; and otherwise it returns the converted tokens in their input order.
  This holds for every conversion function \<open>Number\<close>.
\<close>

theorem parseDraw_3d:
  assumes "game_id game = ''3d''"
  shows "validateAndParseDraw Number input game =
    (let tokens = spec_tokens input; values = map Number tokens in
     if length tokens \<noteq> 3 then Inl (WrongCount input)
     else if list_ex isNaN values then Inl (NotNumeric input)
     else if list_ex (\<lambda>n. num_lt n (Fin 0) \<or> num_lt (Fin 9) n \<or> \<not> isInteger n) values
     then Inl (OutOfRange input)
     else Inr values)"
  using assms tokens_split[of "[]" input] by (simp add: validateAndParseDraw_def Let_def)


lemma spec_tokens_nonempty:
  "t \<in> set (spec_tokens s) \<Longrightarrow> t \<noteq> [] \<and> (\<forall>c\<in>set t. \<not> is_sep c)"
proof (induction s rule: spec_tokens.induct)
  case 1
  then show ?case by simp
next
  case (2 c cs)
  show ?case
  proof (cases "is_sep c")
    case True
    with 2 show ?thesis by simp
  next
    case False
    with 2(3) have "t = c # takeWhile (\<lambda>x. \<not> is_sep x) cs \<or>
        t \<in> set (spec_tokens (dropWhile (\<lambda>x. \<not> is_sep x) cs))"
      by simp
    then show ?thesis
    proof
      assume "t = c # takeWhile (\<lambda>x. \<not> is_sep x) cs"
      with False show ?thesis by (auto dest: set_takeWhileD)
    next
      assume "t \<in> set (spec_tokens (dropWhile (\<lambda>x. \<not> is_sep x) cs))"
      with 2(2) False show ?thesis by blast
    qed
  qed
qed

lemma filter_takeWhile_dropWhile:
  "filter P xs = takeWhile P xs @ filter P (dropWhile P xs)"
  by (induction xs) simp_all

lemma concat_spec_tokens: "concat (spec_tokens s) = filter (\<lambda>c. \<not> is_sep c) s"
proof (induction s rule: spec_tokens.induct)
  case 1
  show ?case by simp
next
  case (2 c cs)
  show ?case
  proof (cases "is_sep c")
    case True
    with 2 show ?thesis by simp
  next
    case False
    with 2(2) show ?thesis
      using filter_takeWhile_dropWhile [of "\<lambda>x. \<not> is_sep x" cs] by simp
  qed
qed

theorem parseDraw_3d_witness:
  "game_id game_3d = ''3d'' \<and>
   validateAndParseDraw StringToNumber ''1, 2-3'' game_3d = Inr [Fin 1, Fin 2, Fin 3] \<and>
   validateAndParseDraw StringToNumber ''x,10'' game_3d = Inl (WrongCount ''x,10'') \<and>
   validateAndParseDraw StringToNumber ''10,x,1'' game_3d = Inl (NotNumeric ''10,x,1'') \<and>
   validateAndParseDraw StringToNumber ''0,9,10'' game_3d = Inl (OutOfRange ''0,9,10'')"
proof -
  have g: "game_id game_3d = ''3d''" by (simp add: game_3d_def)
  have t1: "spec_tokens ''1, 2-3'' = [''1'', ''2'', ''3'']" by code_simp
  have t2: "spec_tokens ''x,10'' = [''x'', ''10'']" by code_simp
  have t3: "spec_tokens ''10,x,1'' = [''10'', ''x'', ''1'']" by code_simp
  have t4: "spec_tokens ''0,9,10'' = [''0'', ''9'', ''10'']" by code_simp
  have n: "StringToNumber ''0'' = Fin 0" "StringToNumber ''1'' = Fin 1"
    "StringToNumber ''2'' = Fin 2" "StringToNumber ''3'' = Fin 3"
    "StringToNumber ''9'' = Fin 9" "StringToNumber ''10'' = Fin 10"
    "StringToNumber ''x'' = NaN"
    by code_simp+
  show ?thesis
    using parseDraw_3d [OF g, of StringToNumber "''1, 2-3''"]
      parseDraw_3d [OF g, of StringToNumber "''x,10''"]
      parseDraw_3d [OF g, of StringToNumber "''10,x,1''"]
      parseDraw_3d [OF g, of StringToNumber "''0,9,10''"]
    by (simp add: g t1 t2 t3 t4 n del: spec_tokens.simps)
qed

section \<open>Properties of the draw collection\<close>

lemma recentDraws_frequency_effect: "recentDraws (frequency_effect st) = recentDraws st"
  by (simp add: frequency_effect_def Let_def)

text \<open>
  C5. \<^verbatim>\<open>handleAddMultipleDraws\<close> (the specification's insertManyFromChronological),
  given draws in chronological order, leaves the collection as the reversed input followed
  by the draws it held before, also after the frequency effect has run; on the empty
  collection, the input \<open>[[1,2,3],[4,5,6]]\<close> gives \<open>[[4,5,6],[1,2,3]]\<close>.
\<close>

theorem insertManyFromChronological:
  "recentDraws (handleAddMultipleDraws draws st) = rev draws @ recentDraws st \<and>
   recentDraws (step ai_present JSON_parse st (AddMultipleDraws draws)) = rev draws @ recentDraws st \<and>
   recentDraws (step ai_present JSON_parse initial_state (AddMultipleDraws [[1, 2, 3], [4, 5, 6]]))
     = [[4, 5, 6], [1, 2, 3]]"
  by (simp add: recentDraws_frequency_effect handleAddMultipleDraws_def initial_state_def)

theorem insertManyFromChronological_witness:
  "recentDraws (handleAddMultipleDraws [[7, 8, 9], [0, 0, 1]]
      (handleAddMultipleDraws [[1, 2, 3], [4, 5, 6]] initial_state))
     = [[0, 0, 1], [7, 8, 9], [4, 5, 6], [1, 2, 3]]"
proof -
  have "recentDraws (handleAddMultipleDraws [[1, 2, 3], [4, 5, 6]] initial_state)
          = [[4, 5, 6], [1, 2, 3]]"
    using insertManyFromChronological [of "[[1, 2, 3], [4, 5, 6]]" initial_state]
    by (simp add: initial_state_def)
  then show ?thesis
    using insertManyFromChronological
      [of "[[7, 8, 9], [0, 0, 1]]" "handleAddMultipleDraws [[1, 2, 3], [4, 5, 6]] initial_state"]
    by simp
qed

lemma filter_index_neq:
  "map snd (filter (\<lambda>(index, x). int index \<noteq> i) (enumerate n xs)) =
     (if int n \<le> i \<and> i < int n + int (length xs)
      then take (nat i - n) xs @ drop (nat i - n + 1) xs else xs)"
proof (induction xs arbitrary: n)
  case Nil
  show ?case by simp
next
  case (Cons x xs)
  show ?case
  proof (cases "int n = i")
    case True
    then have "map snd (filter (\<lambda>(index, x). int index \<noteq> i) (enumerate (Suc n) xs)) = xs"
      using Cons [of "Suc n"] by simp
    with True show ?thesis by auto
  next
    case False
    have "nat i - n = Suc (nat i - Suc n)" if "int n < i"
      using that by linarith
    with False show ?thesis
      using Cons [of "Suc n"] by (auto simp: Suc_diff_le)
  qed
qed

text \<open>
  C10. \<^verbatim>\<open>handleRemoveDraw\<close> (the specification's removeAt) with an index \<open>i\<close> such that
  \<open>0 \<le> i < length\<close> returns the collection without the element at position \<open>i\<close>, the
  others in their order; with any other integer it returns the collection unchanged. The
  handler has no error result: an index out of range is a silent no-op.
\<close>

theorem removeAt:
  "recentDraws (handleRemoveDraw i st) =
     (if 0 \<le> i \<and> i < int (length (recentDraws st))
      then take (nat i) (recentDraws st) @ drop (nat i + 1) (recentDraws st)
      else recentDraws st) \<and>
   recentDraws (step ai_present JSON_parse st (RemoveDraw i)) = recentDraws (handleRemoveDraw i st)"
  using filter_index_neq [of i 0 "recentDraws st"]
  by (simp add: handleRemoveDraw_def recentDraws_frequency_effect)

theorem removeAt_witness:
  "recentDraws (handleRemoveDraw 1 (initial_state\<lparr>recentDraws := [[1, 2, 3], [4, 5, 6], [7, 8, 9]]\<rparr>))
     = [[1, 2, 3], [7, 8, 9]] \<and>
   recentDraws (handleRemoveDraw 3 (initial_state\<lparr>recentDraws := [[1, 2, 3], [4, 5, 6], [7, 8, 9]]\<rparr>))
     = [[1, 2, 3], [4, 5, 6], [7, 8, 9]] \<and>
   recentDraws (handleRemoveDraw (- 1) (initial_state\<lparr>recentDraws := [[1, 2, 3], [4, 5, 6], [7, 8, 9]]\<rparr>))
     = [[1, 2, 3], [4, 5, 6], [7, 8, 9]]"
  using removeAt [of 1 "initial_state\<lparr>recentDraws := [[1, 2, 3], [4, 5, 6], [7, 8, 9]]\<rparr>"]
    removeAt [of 3 "initial_state\<lparr>recentDraws := [[1, 2, 3], [4, 5, 6], [7, 8, 9]]\<rparr>"]
    removeAt [of "- 1" "initial_state\<lparr>recentDraws := [[1, 2, 3], [4, 5, 6], [7, 8, 9]]\<rparr>"]
  by simp

section \<open>Properties of the prediction service\<close>

text \<open>
  C9. Without a credential (\<^verbatim>\<open>API_KEY\<close> undefined or empty) the client is \<^verbatim>\<open>null\<close>,
  and then \<^verbatim>\<open>getGeminiPrediction\<close> fails with the error that the specification calls
  \<open>ServiceUnavailable\<close>, for every game and every draw history, having sent no request to the
  service. In the page, a request for a prediction then ends at once with that error shown
  and nothing pending.
\<close>

theorem disabled_requestor:
  "make_ai GoogleGenAI None = None \<and>
   make_ai GoogleGenAI (Some []) = None \<and>
   getGeminiPrediction None JSON_parse game draws = ([], Inl ClientNotInitialized) \<and>
   error_kind ClientNotInitialized = ServiceUnavailable \<and>
   (3 \<le> length (recentDraws st) \<longrightarrow>
      aiError (handleGetGeminiPrediction False st) = Some (Message ClientNotInitialized) \<and>
      geminiPrediction (handleGetGeminiPrediction False st) = None \<and>
      \<not> isLoadingAiPrediction (handleGetGeminiPrediction False st) \<and>
      pending (handleGetGeminiPrediction False st) = pending st)"
  by (simp add: make_ai_def getGeminiPrediction_def handleGetGeminiPrediction_def
      finish_prediction_def Let_def)

theorem disabled_requestor_witness:
  "fst (getGeminiPrediction (make_ai (\<lambda>key request. Responded None) None) (\<lambda>s. Inl s) game_3d
      [[1, 2, 3], [4, 5, 6], [7, 8, 9]]) = [] \<and>
   map_sum error_kind id (snd (getGeminiPrediction (make_ai (\<lambda>key request. Responded None) None)
      (\<lambda>s. Inl s) game_3d [[1, 2, 3], [4, 5, 6], [7, 8, 9]])) = Inl ServiceUnavailable \<and>
   aiError (handleGetGeminiPrediction False
      (initial_state\<lparr>recentDraws := [[1, 2, 3], [4, 5, 6], [7, 8, 9]]\<rparr>))
     = Some (Message ClientNotInitialized)"
  using disabled_requestor [of "\<lambda>key request. Responded None" "\<lambda>s. Inl s" game_3d
      "[[1, 2, 3], [4, 5, 6], [7, 8, 9]]"
      "initial_state\<lparr>recentDraws := [[1, 2, 3], [4, 5, 6], [7, 8, 9]]\<rparr>"]
  by simp

lemma forEach_throw_first:
  assumes "i < length xs" and "f (xs ! i) (n + i) = Some e"
    and "\<forall>j<i. f (xs ! j) (n + j) = None"
  shows "forEach_throw f n xs = Some e"
  using assms
proof (induction xs arbitrary: n i)
  case Nil
  then show ?case by simp
next
  case (Cons x xs)
  show ?case
  proof (cases i)
    case 0
    with Cons.prems show ?thesis by simp
  next
    case (Suc k)
    have x: "f x n = None" using Cons.prems(3) Suc by (metis add.right_neutral nth_Cons_0 zero_less_Suc)
    have "forEach_throw f (Suc n) xs = Some e"
    proof (rule Cons.IH [of k])
      show "k < length xs" using Cons.prems(1) Suc by simp
      show "f (xs ! k) (Suc n + k) = Some e" using Cons.prems(2) Suc by simp
      show "\<forall>j<k. f (xs ! j) (Suc n + j) = None"
      proof (intro allI impI)
        fix j assume "j < k"
        then have "Suc j < i" using Suc by simp
        with Cons.prems(3) have "f ((x # xs) ! Suc j) (n + Suc j) = None" by blast
        then show "f (xs ! j) (Suc n + j) = None" by simp
      qed
    qed
    with x show ?thesis by simp
  qed
qed

lemma forEach_throw_None:
  "forEach_throw f n xs = None \<Longrightarrow> x \<in> set xs \<Longrightarrow> \<exists>k. f x k = None"
  by (induction xs arbitrary: n) (auto split: option.splits)

lemma validate_3d_success:
  assumes "game_id game = ''3d''" and "validate_prediction game parsedData = Inr r"
  shows "length (predictedNumbers r) = 3 \<and>
         list_all (\<lambda>x. \<not> invalid_in_range 0 9 x) (predictedNumbers r)"
proof -
  from assms obtain numbers summary where
    n: "get_prop parsedData ''predictedNumbers'' = Inr numbers" and
    s: "get_prop parsedData ''analysisSummary'' = Inr summary"
    by (auto simp: validate_prediction_def split: sum.splits)
  let ?xs = "array_items numbers"
  let ?f = "\<lambda>num index. if invalid_in_range 0 9 num
                           then Some (InvalidDigit num (index + 1)) else None"
  from assms n s have len: "length ?xs = 3" and fe: "forEach_throw ?f 0 ?xs = None"
    and r: "predictedNumbers r = ?xs"
    by (auto simp: validate_prediction_def Let_def split: if_splits option.splits)
  have "\<not> invalid_in_range 0 9 x" if "x \<in> set ?xs" for x
    using forEach_throw_None [OF fe that] by (auto split: if_splits)
  with len r show ?thesis by (simp add: list_all_iff)
qed

lemma validate_3d_wrong_length:
  assumes "game_id game = ''3d''"
    and "get_prop parsedData ''predictedNumbers'' = Inr (Some (JArr xs))"
    and "get_prop parsedData ''analysisSummary'' = Inr (Some summary)"
    and "truthy (Some summary)" and "length xs \<noteq> 3"
  shows "validate_prediction game parsedData = Inl (WrongDigitCount (length xs))"
  using assms by (simp add: validate_prediction_def)

lemma validate_3d_invalid_digit:
  assumes "game_id game = ''3d''"
    and "get_prop parsedData ''predictedNumbers'' = Inr (Some (JArr xs))"
    and "get_prop parsedData ''analysisSummary'' = Inr (Some summary)"
    and "truthy (Some summary)" and "length xs = 3" and "i < 3"
    and "invalid_in_range 0 9 (xs ! i)" and "\<forall>j<i. \<not> invalid_in_range 0 9 (xs ! j)"
  shows "validate_prediction game parsedData = Inl (InvalidDigit (xs ! i) (i + 1))"
proof -
  let ?f = "\<lambda>num index. if invalid_in_range 0 9 num
                           then Some (InvalidDigit num (index + 1)) else None"
  have "forEach_throw ?f 0 xs = Some (InvalidDigit (xs ! i) (i + 1))"
    using assms(5-8) by (intro forEach_throw_first [of i]) simp_all
  with assms(1-5) show ?thesis by (simp add: validate_prediction_def)
qed

text \<open>
  C8, as amended. For the game \<^verbatim>\<open>3d\<close> and a response whose text parses to a value that
  passes the structure check, that is with an array \<^verbatim>\<open>predictedNumbers\<close> and a truthy
  (so not empty) \<^verbatim>\<open>analysisSummary\<close>: when the array does not have
  exactly 3 elements the call fails with the wrong-count error, and when it has 3 and some
  element is not an integer from 0 to 9 the call fails with the invalid-digit error, which
  carries the first such element and its 1-based position. Both errors are of the kind
  \<open>InvalidPredictionValue\<close>. Whatever the parsed value is, a prediction that is returned has
  exactly 3 elements, all integers from 0 to 9. In particular the parsed response
  \<^verbatim>\<open>{"predictedNumbers":[1,2],"analysisSummary":"x"}\<close> fails.
\<close>

theorem prediction_validation_3d:
  assumes "game_id game = ''3d''" and "JSON_parse (strip_fence text) = Inr parsedData"
  shows
    "(\<forall>xs summary.
        get_prop parsedData ''predictedNumbers'' = Inr (Some (JArr xs)) \<and>
        get_prop parsedData ''analysisSummary'' = Inr (Some summary) \<and> truthy (Some summary) \<longrightarrow>
          (length xs \<noteq> 3 \<longrightarrow>
             handle_response JSON_parse game (Responded (Some text))
               = Inl (Failed (WrongDigitCount (length xs)))) \<and>
          (\<forall>i. length xs = 3 \<and> i < 3 \<and> invalid_in_range 0 9 (xs ! i) \<and>
                (\<forall>j<i. \<not> invalid_in_range 0 9 (xs ! j)) \<longrightarrow>
             handle_response JSON_parse game (Responded (Some text))
               = Inl (Failed (InvalidDigit (xs ! i) (i + 1))))) \<and>
     (\<forall>r. handle_response JSON_parse game (Responded (Some text)) = Inr r \<longrightarrow>
          length (predictedNumbers r) = 3 \<and>
          list_all (\<lambda>x. \<not> invalid_in_range 0 9 x) (predictedNumbers r)) \<and>
     (\<forall>n v k. error_kind (Failed (WrongDigitCount n)) = InvalidPredictionValue \<and>
              error_kind (Failed (InvalidDigit v k)) = InvalidPredictionValue) \<and>
     validate_prediction game
        (JObj [(''predictedNumbers'', JArr [JNum (Fin 1), JNum (Fin 2)]),
               (''analysisSummary'', JStr ''x'')])
       = Inl (WrongDigitCount 2)"
proof (intro conjI allI impI)
  fix xs summary
  assume a: "get_prop parsedData ''predictedNumbers'' = Inr (Some (JArr xs)) \<and>
        get_prop parsedData ''analysisSummary'' = Inr (Some summary) \<and> truthy (Some summary)"
  {
    assume "length xs \<noteq> 3"
    with a assms show "handle_response JSON_parse game (Responded (Some text))
               = Inl (Failed (WrongDigitCount (length xs)))"
      by (simp add: handle_response_def validate_3d_wrong_length)
  }
  {
    fix i
    assume "length xs = 3 \<and> i < 3 \<and> invalid_in_range 0 9 (xs ! i) \<and>
                (\<forall>j<i. \<not> invalid_in_range 0 9 (xs ! j))"
    with a assms(1) have "validate_prediction game parsedData = Inl (InvalidDigit (xs ! i) (i + 1))"
      by (intro validate_3d_invalid_digit [of game parsedData xs summary i]) simp_all
    with assms(2) show "handle_response JSON_parse game (Responded (Some text))
               = Inl (Failed (InvalidDigit (xs ! i) (i + 1)))"
      by (simp add: handle_response_def)
  }
next
  fix r
  assume "handle_response JSON_parse game (Responded (Some text)) = Inr r"
  with assms(2) have v: "validate_prediction game parsedData = Inr r"
    by (simp add: handle_response_def split: sum.splits)
  from validate_3d_success [OF assms(1) v]
  show "length (predictedNumbers r) = 3"
    and "list_all (\<lambda>x. \<not> invalid_in_range 0 9 x) (predictedNumbers r)"
    by simp_all
next
  show "validate_prediction game
        (JObj [(''predictedNumbers'', JArr [JNum (Fin 1), JNum (Fin 2)]),
               (''analysisSummary'', JStr ''x'')])
       = Inl (WrongDigitCount 2)"
    using assms(1) by (simp add: validate_prediction_def)
qed simp_all

text \<open>
  The claim as stated, for every parsed response, fails where the structure check comes
  first: with \<^verbatim>\<open>predictedNumbers\<close> \<open>[1,2]\<close> and an empty \<^verbatim>\<open>analysisSummary\<close> the
  error is the one about the structure, a \<open>MalformedResponse\<close>, and not the one about the
  number of digits.
\<close>

theorem prediction_validation_3d_counterexample:
  \<open>validate_prediction game_3d
     (JObj [(''predictedNumbers'', JArr [JNum (Fin 1), JNum (Fin 2)]),
            (''analysisSummary'', JStr [])])
     = Inl InvalidStructure \<and>
   handle_response
     (\<lambda>s. Inr (JObj [(''predictedNumbers'', JArr [JNum (Fin 1), JNum (Fin 2)]),
                      (''analysisSummary'', JStr [])]))
     game_3d (Responded (Some ''{"predictedNumbers":[1,2],"analysisSummary":""}''))
     = Inl (Failed InvalidStructure) \<and>
   error_kind (Failed InvalidStructure) = MalformedResponse \<and>
   error_kind (Failed InvalidStructure) \<noteq> InvalidPredictionValue\<close>
  by (simp add: validate_prediction_def handle_response_def)

theorem prediction_validation_3d_witness:
  \<open>handle_response
     (\<lambda>s. Inr (JObj [(''predictedNumbers'', JArr [JNum (Fin 1), JNum (Fin 2)]),
                      (''analysisSummary'', JStr ''x'')]))
     game_3d (Responded (Some ''{"predictedNumbers":[1,2],"analysisSummary":"x"}''))
     = Inl (Failed (WrongDigitCount 2)) \<and>
   handle_response
     (\<lambda>s. Inr (JObj [(''predictedNumbers'', JArr [JNum (Fin 1), JNum (Fin 12), JStr ''7'']),
                      (''analysisSummary'', JStr ''x'')]))
     game_3d (Responded (Some ''{"predictedNumbers":[1,12,"7"],"analysisSummary":"x"}''))
     = Inl (Failed (InvalidDigit (JNum (Fin 12)) 2))\<close>
proof -
  have g: "game_id game_3d = ''3d''" by (simp add: game_3d_def)
  let ?p1 = "JObj [(''predictedNumbers'', JArr [JNum (Fin 1), JNum (Fin 2)]),
                   (''analysisSummary'', JStr ''x'')]"
  let ?p2 = "JObj [(''predictedNumbers'', JArr [JNum (Fin 1), JNum (Fin 12), JStr ''7'']),
                   (''analysisSummary'', JStr ''x'')]"
  let ?t1 = \<open>''{"predictedNumbers":[1,2],"analysisSummary":"x"}''\<close>
  let ?t2 = \<open>''{"predictedNumbers":[1,12,"7"],"analysisSummary":"x"}''\<close>
  have 1: "handle_response (\<lambda>s. Inr ?p1) game_3d (Responded (Some ?t1))
           = Inl (Failed (WrongDigitCount 2))"
    using prediction_validation_3d [OF g, of "\<lambda>s. Inr ?p1" ?t1 ?p1, OF refl,
        THEN conjunct1, rule_format, of "[JNum (Fin 1), JNum (Fin 2)]" "JStr ''x''",
        THEN conjunct1]
    by simp
  have 2: "handle_response (\<lambda>s. Inr ?p2) game_3d (Responded (Some ?t2))
           = Inl (Failed (InvalidDigit (JNum (Fin 12)) 2))"
    using prediction_validation_3d [OF g, of "\<lambda>s. Inr ?p2" ?t2 ?p2, OF refl,
        THEN conjunct1, rule_format, of "[JNum (Fin 1), JNum (Fin 12), JStr ''7'']" "JStr ''x''",
        THEN conjunct2, rule_format, of 1]
    by simp
  from 1 2 show ?thesis by simp
qed

text \<open>
  A greedy star tries the continuation after the whole run first, and whatever it matches
  is a run followed by a match of the continuation.
\<close>

lemma star_greedy_max:
  assumes "list_all P w" and "r = [] \<or> \<not> P (hd r)" and "k r = Some x"
  shows "star_greedy P k (w @ r) = Some x"
  using assms
proof (induction w)
  case Nil
  then show ?case by (cases r) auto
next
  case (Cons a w)
  then show ?case by simp
qed

lemma star_greedy_sound:
  "star_greedy P k s = Some x \<Longrightarrow> \<exists>w r. s = w @ r \<and> list_all P w \<and> k r = Some x"
proof (induction s)
  case Nil
  then show ?case by simp
next
  case (Cons c s)
  show ?case
  proof (cases "P c \<and> star_greedy P k s \<noteq> None")
    case True
    with Cons.prems have "star_greedy P k s = Some x" by (auto split: option.splits)
    from Cons.IH [OF this] obtain w r where "s = w @ r" "list_all P w" "k r = Some x" by blast
    with True have "c # s = (c # w) @ r \<and> list_all P (c # w) \<and> k r = Some x" by simp
    then show ?thesis by blast
  next
    case False
    with Cons.prems have "k (c # s) = Some x" by (auto split: option.splits if_splits)
    then have "c # s = [] @ (c # s) \<and> list_all P [] \<and> k (c # s) = Some x" by simp
    then show ?thesis by blast
  qed
qed

lemma opt_char_sound:
  "opt_char a k s = Some x \<Longrightarrow> k s = Some x \<or> (\<exists>r. s = a # r \<and> k r = Some x)"
  by (cases s) (auto split: option.splits if_splits)

lemma opt_char_skip: "s = [] \<or> hd s \<noteq> a \<Longrightarrow> opt_char a k s = k s"
  by (cases s) auto

lemma fence_tail_sound:
  assumes "fence_tail g s = Some x"
  shows "x = g \<and> (\<exists>w. s = w @ fence \<and> list_all is_space w)"
proof -
  let ?k = "star_greedy is_space (literal fence (end_of_input g))"
  have lf: "is_space (CHR 0x0A)" by (simp add: is_space_def)
  have k: "x = g \<and> (\<exists>w. r = w @ fence \<and> list_all is_space w)" if "?k r = Some x" for r
  proof -
    from star_greedy_sound [OF that] obtain w r' where
      r: "r = w @ r'" and w: "list_all is_space w" and l: "literal fence (end_of_input g) r' = Some x"
      by blast
    from l have "take (length fence) r' = fence" and e: "end_of_input g (drop (length fence) r') = Some x"
      by (auto simp: literal_def split: if_splits)
    moreover from e have "drop (length fence) r' = []" and "x = g"
      by (auto simp: end_of_input_def split: if_splits)
    ultimately have "r' = fence" by (metis append_take_drop_id append_Nil2)
    with r w \<open>x = g\<close> show ?thesis by blast
  qed
  from assms have "opt_char (CHR 0x0A) ?k s = Some x" by (simp add: fence_tail_def)
  from opt_char_sound [OF this] show ?thesis
  proof
    assume "?k s = Some x"
    from k [OF this] show ?thesis .
  next
    assume "\<exists>r. s = CHR 0x0A # r \<and> ?k r = Some x"
    then obtain r where s: "s = CHR 0x0A # r" and "?k r = Some x" by blast
    from k [OF this(2)] obtain w where "x = g" "r = w @ fence" "list_all is_space w" by blast
    with s lf have "s = (CHR 0x0A # w) @ fence \<and> list_all is_space (CHR 0x0A # w)" by simp
    with \<open>x = g\<close> show ?thesis by blast
  qed
qed

lemma fence_not_space: "\<not> is_space (hd fence)" "fence \<noteq> []"
  by (simp_all add: fence_def is_space_def)

lemma fence_tail_complete:
  assumes "list_all is_space w"
  shows "fence_tail g (w @ fence) = Some g"
proof -
  let ?k = "star_greedy is_space (literal fence (end_of_input g))"
  have lit: "literal fence (end_of_input g) fence = Some g"
    by (simp add: literal_def end_of_input_def)
  have k: "?k (v @ fence) = Some g" if "list_all is_space v" for v
    using that fence_not_space lit by (intro star_greedy_max) simp_all
  show ?thesis
  proof (cases w)
    case Nil
    have "opt_char (CHR 0x0A) ?k fence = ?k fence"
      by (rule opt_char_skip) (simp add: fence_def)
    with k [of "[]"] Nil show ?thesis by (simp add: fence_tail_def)
  next
    case (Cons c v)
    with assms k [of v] k [of w] show ?thesis
      by (simp add: fence_tail_def)
  qed
qed

lemma lazy_any_now: "k (rev acc) v = Some x \<Longrightarrow> lazy_any acc k v = Some x"
  by (cases v) simp_all

lemma lazy_any_skip:
  assumes "\<forall>u' u''. u = u' @ u'' \<and> u'' \<noteq> [] \<longrightarrow> k (rev acc @ u') (u'' @ v) = None"
  shows "lazy_any acc k (u @ v) = lazy_any (rev u @ acc) k v"
  using assms
proof (induction u arbitrary: acc)
  case Nil
  show ?case by simp
next
  case (Cons c u)
  have "k (rev acc @ []) ((c # u) @ v) = None"
    using Cons.prems by blast
  then have first: "k (rev acc) (c # u @ v) = None" by simp
  have "lazy_any (c # acc) k (u @ v) = lazy_any (rev u @ c # acc) k v"
  proof (rule Cons.IH, intro allI impI)
    fix u' u''
    assume "u = u' @ u'' \<and> u'' \<noteq> []"
    then have "c # u = (c # u') @ u'' \<and> u'' \<noteq> []" by simp
    with Cons.prems have "k (rev acc @ c # u') (u'' @ v) = None" by blast
    then show "k (rev (c # acc) @ u') (u'' @ v) = None" by simp
  qed
  with first show ?case by simp
qed

lemma trim_id:
  assumes "s \<noteq> []" and "\<not> is_space (hd s)" and "\<not> is_space (last s)"
  shows "trim s = s"
proof -
  have 1: "dropWhile is_space s = s"
    using assms(1,2) by (cases s) auto
  have "rev s \<noteq> []" and "\<not> is_space (hd (rev s))"
    using assms(1,3) by (simp_all add: hd_rev)
  then have "dropWhile is_space (rev s) = rev s"
    by (cases "rev s") auto
  with 1 show ?thesis by (simp add: trim_def)
qed

lemma trim_ends:
  assumes "trim s \<noteq> []"
  shows "\<not> is_space (hd (trim s))" and "\<not> is_space (last (trim s))"
proof -
  let ?d = "dropWhile is_space s"
  let ?e = "dropWhile is_space (rev ?d)"
  have t: "trim s = rev ?e" by (simp add: trim_def)
  with assms have e: "?e \<noteq> []" by simp
  then have "\<not> is_space (hd ?e)" by (rule hd_dropWhile)
  with e t show "\<not> is_space (last (trim s))" by (simp add: last_rev)
  have d: "?d \<noteq> []"
  proof
    assume "?d = []"
    then have "?e = []" by (simp only: rev.simps dropWhile.simps)
    with e show False by contradiction
  qed
  then have hd: "\<not> is_space (hd ?d)" by (rule hd_dropWhile)
  have "rev ?d = takeWhile is_space (rev ?d) @ ?e" by simp
  then have "?d = rev ?e @ rev (takeWhile is_space (rev ?d))"
    by (metis rev_append rev_rev_ident)
  with e have "hd ?d = hd (rev ?e)" by (metis hd_append2 rev_is_Nil_conv)
  with hd t show "\<not> is_space (hd (trim s))" by simp
qed

lemma trim_decomp:
  "\<exists>w1 w2. s = w1 @ trim s @ w2 \<and> list_all is_space w1 \<and> list_all is_space w2"
proof -
  let ?d = "dropWhile is_space s"
  let ?e = "dropWhile is_space (rev ?d)"
  let ?w1 = "takeWhile is_space s"
  let ?w2 = "rev (takeWhile is_space (rev ?d))"
  have "rev ?d = takeWhile is_space (rev ?d) @ ?e" by simp
  then have "?d = rev ?e @ ?w2" by (metis rev_append rev_rev_ident)
  then have "s = ?w1 @ trim s @ ?w2" by (simp add: trim_def)
  moreover have "list_all is_space ?w1" and "list_all is_space ?w2"
    by (auto simp: list_all_iff dest: set_takeWhileD)
  ultimately show ?thesis by blast
qed

lemma trim_idem: "trim (trim s) = trim s"
proof (cases "trim s = []")
  case True
  have "trim [] = []" by (simp add: trim_def)
  with True show ?thesis by simp
next
  case False
  with trim_ends [OF False] show ?thesis by (intro trim_id)
qed

lemma fenceRegex_match_fenced:
  assumes t: "t \<noteq> []" "\<not> is_space (hd t)" "\<not> is_space (last t)"
    and w: "list_all is_space w1" "list_all is_space w2"
    and l: "list_all is_word label"
  shows "fenceRegex_match (fenced label (w1 @ t @ w2)) = Some t"
proof -
  let ?lf = "CHR 0x0A"
  let ?v = "w2 @ [?lf] @ fence"
  have lf: "is_space ?lf" "\<not> is_word ?lf" by (simp_all add: is_space_def is_word_def)
  have tail: "fence_tail t ?v = Some t"
    using fence_tail_complete [of "w2 @ [?lf]" t] w(2) lf(1) by simp
  have none: "\<forall>u' u''. t = u' @ u'' \<and> u'' \<noteq> [] \<longrightarrow> fence_tail (rev [] @ u') (u'' @ ?v) = None"
  proof (intro allI impI)
    fix u' u''
    assume u: "t = u' @ u'' \<and> u'' \<noteq> []"
    show "fence_tail (rev [] @ u') (u'' @ ?v) = None"
    proof (rule ccontr)
      assume "fence_tail (rev [] @ u') (u'' @ ?v) \<noteq> None"
      then obtain x where "fence_tail (rev [] @ u') (u'' @ ?v) = Some x" by blast
      from fence_tail_sound [OF this] obtain w where
        "u'' @ ?v = w @ fence" and sp: "list_all is_space w" by blast
      then have "(u'' @ w2 @ [?lf]) @ fence = w @ fence" by simp
      then have "u'' @ w2 @ [?lf] = w" by (simp only: append_same_eq)
      with sp have "list_all is_space u''" by auto
      moreover from u have "last u'' = last t" "u'' \<noteq> []" by simp_all
      ultimately show False using t(3) by (metis last_in_set list_all_iff)
    qed
  qed
  have "lazy_any [] fence_tail (t @ ?v) = lazy_any (rev t @ []) fence_tail ?v"
    by (rule lazy_any_skip [OF none])
  also have "\<dots> = Some t"
    using tail by (intro lazy_any_now) simp
  finally have k3: "lazy_any [] fence_tail (t @ ?v) = Some t" .
  have hd_t: "hd (t @ ?v) = hd t" "t @ ?v \<noteq> []" using t(1) by simp_all
  have "hd (t @ ?v) \<noteq> ?lf" using hd_t t(2) lf(1) by auto
  then have k2: "opt_char ?lf (lazy_any [] fence_tail) (t @ ?v) = Some t"
    using k3 by (simp add: opt_char_skip)
  have k1: "star_greedy is_space (opt_char ?lf (lazy_any [] fence_tail))
              ((?lf # w1) @ (t @ ?v)) = Some t"
  proof (rule star_greedy_max)
    show "list_all is_space (?lf # w1)" using w(1) lf(1) by simp
    show "t @ ?v = [] \<or> \<not> is_space (hd (t @ ?v))" using hd_t t(2) by simp
    show "opt_char ?lf (lazy_any [] fence_tail) (t @ ?v) = Some t" by (rule k2)
  qed
  have k0: "star_greedy is_word (star_greedy is_space (opt_char ?lf (lazy_any [] fence_tail)))
              (label @ ((?lf # w1) @ (t @ ?v))) = Some t"
  proof (rule star_greedy_max)
    show "list_all is_word label" by (rule l)
    show "(?lf # w1) @ (t @ ?v) = [] \<or> \<not> is_word (hd ((?lf # w1) @ (t @ ?v)))"
      using lf(2) by simp
    show "star_greedy is_space (opt_char ?lf (lazy_any [] fence_tail))
              ((?lf # w1) @ (t @ ?v)) = Some t" by (rule k1)
  qed
  have "fenced label (w1 @ t @ w2) = fence @ (label @ ((?lf # w1) @ (t @ ?v)))"
    by (simp add: fenced_def)
  then show ?thesis using k0 by (simp add: fenceRegex_match_def literal_def)
qed

lemma trim_fenced: "trim (fenced label s) = fenced label s"
  by (rule trim_id) (simp_all add: fenced_def fence_def is_space_def)

lemma strip_fence_fenced:
  assumes "trim s \<noteq> []" and "list_all is_word label"
  shows "strip_fence (fenced label s) = trim s"
proof -
  from trim_decomp [of s] obtain w1 w2 where
    s: "s = w1 @ trim s @ w2" and w: "list_all is_space w1" "list_all is_space w2" by blast
  have "fenceRegex_match (fenced label (w1 @ trim s @ w2)) = Some (trim s)"
    using assms w trim_ends [OF assms(1)] by (intro fenceRegex_match_fenced)
  with s have "fenceRegex_match (fenced label s) = Some (trim s)" by simp
  with assms(1) show ?thesis by (simp add: strip_fence_def trim_fenced trim_idem)
qed

lemma strip_fence_plain:
  assumes "take 3 (trim s) \<noteq> fence"
  shows "strip_fence s = trim s"
proof -
  have "length fence = 3" by (simp add: fence_def)
  with assms have "fenceRegex_match (trim s) = None"
    by (simp add: fenceRegex_match_def literal_def)
  then show ?thesis by (simp add: strip_fence_def)
qed

text \<open>
  C7, as amended. For every non-empty JSON text \<open>s\<close>, the normalisation maps the fenced
  form of \<open>s\<close>, with the label \<^verbatim>\<open>json\<close> or without a label, to \<open>s\<close> without its
  leading and trailing white space (so to \<open>s\<close> itself when it has none), and it maps the
  unwrapped \<open>s\<close> to the same text, so that the fenced and the unwrapped response are
  parsed identically. Of \<open>s\<close> the theorem uses only what holds of every JSON text: it is
  not all white space and, for the unwrapped form, it does not begin with a fence after
  its leading white space (a JSON value begins with a brace, a bracket, a quote, a minus
  sign, a digit or a letter).
\<close>

theorem fenced_response_normalised:
  assumes "trim s \<noteq> []"
  shows "strip_fence (fenced ''json'' s) = trim s \<and>
         strip_fence (fenced [] s) = trim s \<and>
         (take 3 (trim s) \<noteq> fence \<longrightarrow> strip_fence s = trim s)"
  using assms strip_fence_fenced [of s "''json''"] strip_fence_fenced [of s "[]"] strip_fence_plain [of s]
  by (simp add: is_word_def)

text \<open>
  The claim as stated, that the fenced form of a JSON text \<open>s\<close> is mapped to \<open>s\<close> itself,
  fails for the JSON text \<^verbatim>\<open>{}\<close> followed by a line feed (white space around the value
  belongs to a JSON text): the result is \<^verbatim>\<open>{}\<close>.
\<close>

theorem fenced_response_counterexample:
  "strip_fence (fenced ''json'' (''{}'' @ [CHR 0x0A])) \<noteq> ''{}'' @ [CHR 0x0A]"
  by code_simp

theorem fenced_response_normalised_witness:
  "strip_fence (fenced ''json'' '' [1, 2] '') = ''[1, 2]'' \<and>
   strip_fence (fenced [] '' [1, 2] '') = ''[1, 2]'' \<and>
   strip_fence '' [1, 2] '' = ''[1, 2]''"
proof -
  have t: "trim '' [1, 2] '' = ''[1, 2]''" by code_simp
  have f: "take 3 ''[1, 2]'' \<noteq> fence" by code_simp
  show ?thesis
    using fenced_response_normalised [of "'' [1, 2] ''"] t f by simp
qed

section \<open>Properties of batch parsing\<close>

lemma processCsvText_fold:
  "foldl (\<lambda>(parsedDraws, errors) (index, line).
              case validateAndParseDraw Number line game of
                Inl result \<Rightarrow> (parsedDraws, errors @ [(index + 1, line, result)])
              | Inr result \<Rightarrow> (parsedDraws @ [result], errors))
       (ps, es) xs =
   (ps @ List.map_filter (\<lambda>(index, line).
            case validateAndParseDraw Number line game of Inl e \<Rightarrow> None | Inr r \<Rightarrow> Some r) xs,
    es @ List.map_filter (\<lambda>(index, line).
            case validateAndParseDraw Number line game of
              Inl e \<Rightarrow> Some (index + 1, line, e) | Inr r \<Rightarrow> None) xs)"
  by (induction xs arbitrary: ps es) (auto simp: List.map_filter_simps split: sum.splits)

text \<open>
  Every non-blank line is parsed, whatever the lines before it gave: the draws are the
  successes and the errors are the failures, each in the order of the lines, an error with
  the 1-based position of its line among the non-blank lines.
\<close>

lemma processCsvText_all_lines:
  "processCsvText Number text game =
   (List.map_filter (\<lambda>(index, line).
        case validateAndParseDraw Number line game of Inl e \<Rightarrow> None | Inr r \<Rightarrow> Some r)
      (enumerate 0 (csv_lines text)),
    List.map_filter (\<lambda>(index, line).
        case validateAndParseDraw Number line game of
          Inl e \<Rightarrow> Some (index + 1, line, e) | Inr r \<Rightarrow> None)
      (enumerate 0 (csv_lines text)))"
  unfolding processCsvText_def by (simp add: processCsvText_fold)

text \<open>The report shows at most five errors and counts the others.\<close>

lemma error_report_cap:
  "length (fst (error_report errors)) \<le> 5 \<and>
   fst (error_report errors) = take 5 errors \<and>
   length (fst (error_report errors)) +
     (case snd (error_report errors) of None \<Rightarrow> 0 | Some n \<Rightarrow> n) = length errors"
  by (simp add: error_report_def)

text \<open>
  C4. The claim that every failure is tagged with its line number does not hold of the
  code: the blank lines are dropped before the lines are numbered. In the text whose first
  line is empty and whose second line is \<^verbatim>\<open>1,2\<close>, the error of the second line is
  reported as \<^verbatim>\<open>Line 1\<close>.
\<close>

theorem processCsvText_line_number_after_blank:
  "processCsvText StringToNumber (CHR 0x0A # ''1,2'') game_3d
     = ([], [(1, ''1,2'', WrongCount ''1,2'')])"
  by code_simp

section \<open>Properties of the prediction request in the page\<close>

lemma pending_frequency_effect: "pending (frequency_effect st) = pending st"
  by (simp add: frequency_effect_def Let_def)

text \<open>
  C3. The claim that a response is not applied once the collection or the game has changed
  does not hold of the code: when a call settles with a valid prediction, the prediction is
  stored whatever the draws and the selected game are by then. The handler keeps no token of
  the request, and compares nothing.
\<close>

theorem stale_response_applied:
  assumes "pending st = (game, draws) # others"
    and "handle_response JSON_parse game outcome = Inr prediction"
  shows "geminiPrediction (step ai_present JSON_parse st (ServiceSettles outcome)) = Some prediction"
  using assms by (simp add: prediction_settled_def finish_prediction_def)

lemma geminiPrediction_frequency_effect:
  "geminiPrediction (frequency_effect st) =
     (if recentDraws st = [] then geminiPrediction st else None)"
  by (simp add: frequency_effect_def Let_def)

theorem stale_response_applied_witness:
  \<open>pending (run True
       (\<lambda>s. Inr (JObj [(''predictedNumbers'', JArr [JNum (Fin 1), JNum (Fin 2), JNum (Fin 3)]),
                        (''analysisSummary'', JStr ''x'')]))
       initial_state
       [AddDraw [1, 2, 3], AddDraw [4, 5, 6], AddDraw [7, 8, 9], GetGeminiPrediction])
     = [(game_3d, [[1, 2, 3], [4, 5, 6], [7, 8, 9]])] \<and>
   recentDraws (run True
       (\<lambda>s. Inr (JObj [(''predictedNumbers'', JArr [JNum (Fin 1), JNum (Fin 2), JNum (Fin 3)]),
                        (''analysisSummary'', JStr ''x'')]))
       initial_state
       [AddDraw [1, 2, 3], AddDraw [4, 5, 6], AddDraw [7, 8, 9], GetGeminiPrediction,
        AddDraw [0, 0, 0],
        ServiceSettles (Responded (Some ''{"predictedNumbers":[1,2,3],"analysisSummary":"x"}''))])
     = [[0, 0, 0], [7, 8, 9], [4, 5, 6], [1, 2, 3]] \<and>
   geminiPrediction (run True
       (\<lambda>s. Inr (JObj [(''predictedNumbers'', JArr [JNum (Fin 1), JNum (Fin 2), JNum (Fin 3)]),
                        (''analysisSummary'', JStr ''x'')]))
       initial_state
       [AddDraw [1, 2, 3], AddDraw [4, 5, 6], AddDraw [7, 8, 9], GetGeminiPrediction,
        AddDraw [0, 0, 0],
        ServiceSettles (Responded (Some ''{"predictedNumbers":[1,2,3],"analysisSummary":"x"}''))])
     = Some \<lparr>predictedNumbers = [JNum (Fin 1), JNum (Fin 2), JNum (Fin 3)],
              analysisSummary = JStr ''x''\<rparr> \<and>
   recentDraws (run True
       (\<lambda>s. Inr (JObj [(''predictedNumbers'', JArr [JNum (Fin 1), JNum (Fin 2), JNum (Fin 3)]),
                        (''analysisSummary'', JStr ''x'')]))
       initial_state
       [AddDraw [1, 2, 3], AddDraw [4, 5, 6], AddDraw [7, 8, 9], GetGeminiPrediction,
        GameChange ''3d'',
        ServiceSettles (Responded (Some ''{"predictedNumbers":[1,2,3],"analysisSummary":"x"}''))])
     = [] \<and>
   geminiPrediction (run True
       (\<lambda>s. Inr (JObj [(''predictedNumbers'', JArr [JNum (Fin 1), JNum (Fin 2), JNum (Fin 3)]),
                        (''analysisSummary'', JStr ''x'')]))
       initial_state
       [AddDraw [1, 2, 3], AddDraw [4, 5, 6], AddDraw [7, 8, 9], GetGeminiPrediction,
        GameChange ''3d'',
        ServiceSettles (Responded (Some ''{"predictedNumbers":[1,2,3],"analysisSummary":"x"}''))])
     = Some \<lparr>predictedNumbers = [JNum (Fin 1), JNum (Fin 2), JNum (Fin 3)],
              analysisSummary = JStr ''x''\<rparr>\<close>
proof -
  let ?obj = "JObj [(''predictedNumbers'', JArr [JNum (Fin 1), JNum (Fin 2), JNum (Fin 3)]),
                    (''analysisSummary'', JStr ''x'')]"
  let ?P = "\<lambda>s :: string. (Inr ?obj :: string + json)"
  let ?text = \<open>''{"predictedNumbers":[1,2,3],"analysisSummary":"x"}''\<close>
  let ?p = "\<lparr>predictedNumbers = [JNum (Fin 1), JNum (Fin 2), JNum (Fin 3)],
             analysisSummary = JStr ''x''\<rparr>"
  let ?requested = "run True ?P initial_state
       [AddDraw [1, 2, 3], AddDraw [4, 5, 6], AddDraw [7, 8, 9], GetGeminiPrediction]"
  let ?added = "step True ?P ?requested (AddDraw [0, 0, 0])"
  let ?switched = "step True ?P ?requested (GameChange ''3d'')"
  have sel: "selectedGame st = game_3d" for st
    by (simp add: selectedGame_def LOTTO_GAMES_def)
  have req: "pending ?requested = [(game_3d, [[1, 2, 3], [4, 5, 6], [7, 8, 9]])]"
    "recentDraws ?requested = [[7, 8, 9], [4, 5, 6], [1, 2, 3]]"
    by (simp_all add: run_def handleAddDraw_def handleGetGeminiPrediction_def Let_def sel
        initial_state_def recentDraws_frequency_effect pending_frequency_effect)
  have h: "handle_response ?P game_3d (Responded (Some ?text)) = Inr ?p"
    by (simp add: handle_response_def validate_prediction_def game_3d_def)
  have a: "pending ?added = [(game_3d, [[1, 2, 3], [4, 5, 6], [7, 8, 9]])]"
    "recentDraws ?added = [[0, 0, 0], [7, 8, 9], [4, 5, 6], [1, 2, 3]]"
    using req by (simp_all add: handleAddDraw_def recentDraws_frequency_effect
        pending_frequency_effect)
  have s: "pending ?switched = [(game_3d, [[1, 2, 3], [4, 5, 6], [7, 8, 9]])]"
    "recentDraws ?switched = []"
    using req by (simp_all add: handleGameChange_def recentDraws_frequency_effect
        pending_frequency_effect)
  have 1: "geminiPrediction (step True ?P ?added (ServiceSettles (Responded (Some ?text)))) = Some ?p"
    using stale_response_applied [OF a(1) h] .
  have 2: "geminiPrediction (step True ?P ?switched (ServiceSettles (Responded (Some ?text)))) = Some ?p"
    using stale_response_applied [OF s(1) h] .
  have 3: "recentDraws (step True ?P ?added (ServiceSettles (Responded (Some ?text))))
            = [[0, 0, 0], [7, 8, 9], [4, 5, 6], [1, 2, 3]]"
    using a h by (simp add: prediction_settled_def finish_prediction_def)
  have 4: "recentDraws (step True ?P ?switched (ServiceSettles (Responded (Some ?text)))) = []"
    using s h by (simp add: prediction_settled_def finish_prediction_def)
  have run2: "run True ?P initial_state (evs @ [e1, e2]) =
        step True ?P (step True ?P (run True ?P initial_state evs) e1) e2" for evs e1 e2
    by (simp add: run_def)
  show ?thesis
    using req(1) 1 2 3 4
      run2 [of "[AddDraw [1, 2, 3], AddDraw [4, 5, 6], AddDraw [7, 8, 9], GetGeminiPrediction]"
        "AddDraw [0, 0, 0]" "ServiceSettles (Responded (Some ?text))"]
      run2 [of "[AddDraw [1, 2, 3], AddDraw [4, 5, 6], AddDraw [7, 8, 9], GetGeminiPrediction]"
        "GameChange ''3d''" "ServiceSettles (Responded (Some ?text))"]
    by (simp only: append.simps)
qed

section \<open>Validated draws\<close>

text \<open>
  A draw that \<^verbatim>\<open>validateAndParseDraw\<close> accepts for the game \<^verbatim>\<open>3d\<close> has three numbers,
  each an integer from 0 to 9, so that the state loses nothing by carrying integers.
\<close>

lemma digit_number:
  assumes "\<not> isNaN n" and "\<not> (num_lt n (Fin 0) \<or> num_lt (Fin 9) n \<or> \<not> isInteger n)"
  shows "\<exists>i. 0 \<le> i \<and> i \<le> 9 \<and> n = Fin (of_int i)"
proof (cases n)
  case (Fin r)
  with assms have r: "of_int \<lfloor>r\<rfloor> = r" "0 \<le> r" "r \<le> 9" by simp_all
  then have "0 \<le> \<lfloor>r\<rfloor>" "\<lfloor>r\<rfloor> \<le> 9" by (simp_all add: floor_le_iff)
  with r(1) Fin show ?thesis by (metis)
qed (use assms in simp_all)

lemma validated_draw_digits:
  assumes "game_id game = ''3d''" and "validateAndParseDraw Number input game = Inr numbers"
  shows "length numbers = 3 \<and>
         list_all (\<lambda>n. \<exists>i. 0 \<le> i \<and> i \<le> 9 \<and> n = Fin (of_int i)) numbers \<and>
         map (\<lambda>i. Fin (of_int i)) (as_draw numbers) = numbers"
proof -
  let ?bad = "\<lambda>n. num_lt n (Fin 0) \<or> num_lt (Fin 9) n \<or> \<not> isInteger n"
  from assms have len: "length numbers = 3"
    and nan: "\<not> list_ex isNaN numbers" and bad: "\<not> list_ex ?bad numbers"
    by (auto simp: validateAndParseDraw_def Let_def split: if_splits)
  have d: "\<exists>i. 0 \<le> i \<and> i \<le> 9 \<and> n = Fin (of_int i)" if "n \<in> set numbers" for n
    using that nan bad by (intro digit_number) (auto simp: list_ex_iff)
  have "Fin (of_int (case n of Fin r \<Rightarrow> \<lfloor>r\<rfloor> | _ \<Rightarrow> 0)) = n" if "n \<in> set numbers" for n
    using d [OF that] by auto
  then have "map (\<lambda>n. Fin (of_int (case n of Fin r \<Rightarrow> \<lfloor>r\<rfloor> | _ \<Rightarrow> 0))) numbers = numbers"
    by (intro map_idI)
  then have "map (\<lambda>i. Fin (of_int i)) (as_draw numbers) = numbers"
    by (simp add: as_draw_def comp_def)
  with len d show ?thesis by (simp add: list_all_iff)
qed

section \<open>Properties of the frequency analysis\<close>

lemma Array_sort_int: "Array_sort (\<lambda>a b. 0 < a - b) (xs :: int list) = sort xs"
proof -
  have "insert_by (\<lambda>a b. 0 < a - b) x ys = insort x ys" for x :: int and ys
    by (induction ys) auto
  then have "insert_by (\<lambda>a b. (0::int) < a - b) = insort" by (intro ext)
  then show ?thesis by (simp only: Array_sort_def sort_key_def)
qed

lemma set_insert_by: "set (insert_by gt x ys) = insert x (set ys)"
  by (induction ys) auto

lemma length_insert_by: "length (insert_by gt x ys) = Suc (length ys)"
  by (induction ys) auto

lemma Array_sort_Cons: "Array_sort gt (x # xs) = insert_by gt x (Array_sort gt xs)"
  by (simp add: Array_sort_def)

lemma set_Array_sort: "set (Array_sort gt xs) = set xs"
  by (induction xs) (simp_all add: Array_sort_Cons set_insert_by, simp add: Array_sort_def)

lemma length_Array_sort: "length (Array_sort gt xs) = length xs"
  by (induction xs) (simp_all add: Array_sort_Cons length_insert_by, simp add: Array_sort_def)

lemma distinct_insert_by: "distinct (map f (insert_by gt x ys)) = distinct (map f (x # ys))"
  by (induction ys) (auto simp: set_insert_by)

lemma distinct_Array_sort: "distinct (map f (Array_sort gt xs)) = distinct (map f xs)"
proof (induction xs)
  case Nil
  show ?case by (simp add: Array_sort_def)
next
  case (Cons x xs)
  then show ?case by (simp add: Array_sort_Cons distinct_insert_by set_Array_sort)
qed

lemma sorted_insert_by:
  assumes total: "\<And>a b. gt a b \<Longrightarrow> \<not> gt b a"
    and trans: "\<And>a b c. \<not> gt a b \<Longrightarrow> \<not> gt b c \<Longrightarrow> \<not> gt a c"
    and "sorted_wrt (\<lambda>a b. \<not> gt a b) ys"
  shows "sorted_wrt (\<lambda>a b. \<not> gt a b) (insert_by gt x ys)"
  using assms(3)
proof (induction ys)
  case Nil
  show ?case by simp
next
  case (Cons y ys)
  show ?case
  proof (cases "gt x y")
    case True
    with Cons total show ?thesis by (auto simp: set_insert_by)
  next
    case False
    with Cons trans show ?thesis by auto
  qed
qed

lemma sorted_Array_sort:
  assumes total: "\<And>a b. gt a b \<Longrightarrow> \<not> gt b a"
    and trans: "\<And>a b c. \<not> gt a b \<Longrightarrow> \<not> gt b c \<Longrightarrow> \<not> gt a c"
  shows "sorted_wrt (\<lambda>a b. \<not> gt a b) (Array_sort gt xs)"
proof (induction xs)
  case Nil
  show ?case by (simp add: Array_sort_def)
next
  case (Cons x xs)
  then show ?case using sorted_insert_by [OF total trans] by (simp add: Array_sort_Cons)
qed

text \<open>The table of counts.\<close>

lemma keys_increment:
  "map fst (increment oc k) = (if k \<in> fst ` set oc then map fst oc else map fst oc @ [k])"
  by (induction oc k rule: increment.induct) auto

lemma map_of_increment:
  "map_of (increment oc k) =
     (map_of oc)(k \<mapsto> (case map_of oc k of None \<Rightarrow> 1 | Some c \<Rightarrow> c + 1))"
  by (induction oc k rule: increment.induct) (auto simp: fun_eq_iff)

lemma distinct_keys_fold:
  "distinct (map fst oc) \<Longrightarrow> distinct (map fst (foldl increment oc xs))"
  by (induction xs arbitrary: oc) (simp_all add: keys_increment)

lemma set_keys_fold: "fst ` set (foldl increment oc xs) = fst ` set oc \<union> set xs"
proof (induction xs arbitrary: oc)
  case Nil
  show ?case by simp
next
  case (Cons x xs)
  have "fst ` set (increment oc x) = insert x (fst ` set oc)"
    using keys_increment [of oc x] by (metis (no_types) insert_absorb list.set_map set_append
        list.simps(15) Un_insert_right sup_bot.right_neutral empty_set)
  with Cons [of "increment oc x"] show ?case by simp
qed

lemma map_of_fold:
  "map_of (foldl increment oc xs) k =
     (if k \<in> set xs
      then Some ((case map_of oc k of None \<Rightarrow> 0 | Some c \<Rightarrow> c) + count_list xs k)
      else map_of oc k)"
proof (induction xs arbitrary: oc)
  case Nil
  show ?case by simp
next
  case (Cons x xs)
  show ?case
    using Cons [of "increment oc x"]
    by (auto simp: map_of_increment split: option.splits)
qed

lemma tally_eq:
  "tally draws = (foldl increment [] (concat draws), length (concat draws))"
proof -
  let ?g = "\<lambda>(overallCounts, totalDigitsAnalyzed) num.
              (increment overallCounts num, totalDigitsAnalyzed + (1::nat))"
  have inner: "foldl ?g (oc, t) xs = (foldl increment oc xs, t + length xs)" for oc t xs
    by (induction xs arbitrary: oc t) simp_all
  have outer: "foldl (\<lambda>acc draw. foldl ?g acc draw) a ds = foldl ?g a (concat ds)" for a ds
    by (induction ds arbitrary: a) simp_all
  have "tally draws = foldl ?g ([], 0) (concat draws)"
    unfolding tally_def by (rule outer)
  also have "\<dots> = (foldl increment [] (concat draws), 0 + length (concat draws))"
    by (rule inner)
  finally show ?thesis by simp
qed

lemma set_Object_entries: "set (Object_entries obj) = set obj"
  by (auto simp: Object_entries_def)

lemma distinct_Object_entries:
  assumes "distinct (map fst obj)"
  shows "distinct (map fst (Object_entries obj))"
proof -
  let ?A = "filter (\<lambda>(k, v). is_array_index k) obj"
  let ?B = "filter (\<lambda>(k, v). \<not> is_array_index k) obj"
  have inj: "inj_on fst (set obj)" and d: "distinct obj"
    using assms by (simp_all add: distinct_map)
  have "distinct (map fst (sort_key fst ?A))"
    using inj d by (auto simp: distinct_map intro: inj_on_subset)
  moreover have "distinct (map fst ?B)"
    using assms by (rule distinct_map_filter)
  moreover have "fst ` set (sort_key fst ?A) \<inter> fst ` set ?B = {}"
    by auto
  ultimately show ?thesis by (simp add: Object_entries_def)
qed

text \<open>
  Rounding to a double: the error of one rounding is at most \<open>2^-53\<close> of the value, for a
  value that is not below the smallest normal double.
\<close>

lemma round_half_even_error: "\<bar>of_int (round_half_even y) - y\<bar> \<le> 1 / 2"
proof -
  have "of_int \<lfloor>y\<rfloor> \<le> y" "y < of_int \<lfloor>y\<rfloor> + 1" by linarith+
  then show ?thesis by (auto simp: round_half_even_def Let_def abs_le_iff)
qed

lemma bitlen_powi:
  assumes "0 < (p::int)"
  shows "(2::rat) powi (bitlen p - 1) \<le> of_int p" and "of_int p < (2::rat) powi (bitlen p)"
proof -
  from bitlen_bounds [OF assms] have lo: "2 ^ nat (bitlen p - 1) \<le> p" and hi: "p < 2 ^ nat (bitlen p)"
    by simp_all
  have b: "1 \<le> bitlen p" using assms by (simp add: bitlen_alt_def)
  have "(2::rat) powi (bitlen p - 1) = of_int (2 ^ nat (bitlen p - 1))"
    using b by (simp add: power_int_def)
  also have "\<dots> \<le> of_int p" using lo by (simp only: of_int_le_iff)
  finally show "(2::rat) powi (bitlen p - 1) \<le> of_int p" .
  have "(of_int p :: rat) < of_int (2 ^ nat (bitlen p))" using hi by (simp only: of_int_less_iff)
  also have "\<dots> = (2::rat) powi (bitlen p)" using b by (simp add: power_int_def)
  finally show "of_int p < (2::rat) powi (bitlen p)" .
qed

lemma binade_bounds:
  assumes "0 < a"
  shows "(2::rat) powi (binade a) \<le> a" and "a < (2::rat) powi (binade a + 1)"
proof -
  obtain p q where pq: "quotient_of a = (p, q)" by (cases "quotient_of a")
  then have q: "0 < q" and a: "a = of_int p / of_int q"
    by (simp_all add: quotient_of_denom_pos quotient_of_div)
  with assms have p: "0 < p" by (simp add: zero_less_divide_iff)
  let ?d = "bitlen p - bitlen q"
  have qr: "(0::rat) < of_int q" using q by simp
  have "a < (2::rat) powi (bitlen p) / (2::rat) powi (bitlen q - 1)"
  proof -
    have "a < (2::rat) powi (bitlen p) / of_int q"
      unfolding a using bitlen_powi(2) [OF p] qr by (simp add: divide_strict_right_mono)
    also have "\<dots> \<le> (2::rat) powi (bitlen p) / (2::rat) powi (bitlen q - 1)"
      using bitlen_powi(1) [OF q] qr by (intro divide_left_mono) (simp_all add: zero_less_mult_iff)
    finally show ?thesis .
  qed
  then have hi: "a < (2::rat) powi (?d + 1)"
    by (simp add: power_int_diff [symmetric] algebra_simps)
  have "(2::rat) powi (bitlen p - 1) / (2::rat) powi (bitlen q) \<le> a"
  proof -
    have "(2::rat) powi (bitlen p - 1) / (2::rat) powi (bitlen q) \<le> of_int p / (2::rat) powi (bitlen q)"
      using bitlen_powi(1) [OF p] by (intro divide_right_mono) simp_all
    also have "\<dots> \<le> of_int p / of_int q"
      using bitlen_powi(2) [OF q] p qr by (intro divide_left_mono) (simp_all add: zero_less_mult_iff)
    finally show ?thesis by (simp add: a)
  qed
  then have lo: "(2::rat) powi (?d - 1) \<le> a"
    by (simp add: power_int_diff [symmetric] algebra_simps)
  show "(2::rat) powi (binade a) \<le> a" using lo by (simp add: binade_def pq Let_def)
  show "a < (2::rat) powi (binade a + 1)" using hi by (simp add: binade_def pq Let_def)
qed

lemma abs_scaled:
  fixes r u a :: rat
  assumes "0 < u"
  shows "\<bar>r * u - a\<bar> = \<bar>r - a / u\<bar> * u"
proof -
  have "r * u - a = (r - a / u) * u" using assms by (simp add: field_simps)
  then have "\<bar>r * u - a\<bar> = \<bar>r - a / u\<bar> * \<bar>u\<bar>" by (simp only: abs_mult)
  with assms show ?thesis by simp
qed

lemma double_round_error:
  assumes "(2::rat) powi (- 1022) \<le> a"
  shows "\<bar>double_round a - a\<bar> \<le> a / 2 ^ 53"
proof -
  have pos: "0 < a"
    using assms by (rule less_le_trans [rotated]) simp
  let ?e = "binade a"
  let ?ulp = "(2::rat) powi (?e - 52)"
  let ?r = "round_half_even (a / ?ulp)"
  have e: "- 1022 \<le> ?e"
  proof (rule ccontr)
    assume "\<not> - 1022 \<le> ?e"
    then have "?e + 1 \<le> - 1022" by simp
    then have "(2::rat) powi (?e + 1) \<le> 2 powi (- 1022)"
      by (intro power_int_increasing) simp_all
    with binade_bounds(2) [OF pos] assms show False by linarith
  qed
  have ulp: "0 < ?ulp" by simp
  have dr: "double_round a = of_int ?r * ?ulp"
    using pos e by (simp add: double_round_def Let_def max_def)
  have "\<bar>of_int ?r * ?ulp - a\<bar> = \<bar>of_int ?r - a / ?ulp\<bar> * ?ulp"
    using ulp by (rule abs_scaled)
  also have "\<dots> \<le> 1 / 2 * ?ulp"
    using round_half_even_error [of "a / ?ulp"] ulp by (intro mult_right_mono) simp_all
  also have "\<dots> = 2 powi ?e / 2 ^ 53"
    by (simp add: power_int_diff)
  also have "\<dots> \<le> a / 2 ^ 53"
    using binade_bounds(1) [OF pos] by (intro divide_right_mono) simp_all
  finally show ?thesis by (simp only: dr)
qed

lemma percentage_error:
  assumes "0 < c" and "c \<le> n" and "n < 2 ^ 53"
  shows "\<bar>double_round (double_round (of_nat c / of_nat n) * 100) - 100 * of_nat c / of_nat n\<bar>
           \<le> (100 * of_nat c / of_nat n) / 2 ^ 51"
proof -
  define x :: rat where "x = of_nat c / of_nat n"
  define y where "y = double_round x"
  define z where "z = double_round (y * 100)"
  have n: "0 < n" using assms by simp
  have small: "(2::rat) powi (- 1022) \<le> 1 / 9007199254740992"
    by (simp add: power_int_minus field_simps)
  have "(of_nat n :: rat) < 2 ^ 53"
    using assms(3) by (metis of_nat_less_iff of_nat_numeral of_nat_power)
  then have "1 / 2 ^ 53 < 1 / (of_nat n :: rat)"
    using n by (intro divide_strict_left_mono) simp_all
  also have "\<dots> \<le> x" unfolding x_def using assms(1) n by (intro divide_right_mono) simp_all
  finally have x: "1 / 9007199254740992 < x" by simp
  have x0: "0 < x" using x by linarith
  have "(2::rat) powi (- 1022) \<le> x" using small x by linarith
  from double_round_error [OF this] have "\<bar>y - x\<bar> \<le> x / 2 ^ 53" by (simp only: y_def)
  then have y: "\<bar>y - x\<bar> \<le> x / 9007199254740992" by simp
  then have ylo: "x / 2 \<le> y" and yhi: "y \<le> 2 * x"
    using x0 by linarith+
  have "(2::rat) powi (- 1022) \<le> y * 100" using small x ylo by linarith
  from double_round_error [OF this] have "\<bar>z - y * 100\<bar> \<le> y * 100 / 2 ^ 53"
    by (simp only: z_def)
  then have z: "\<bar>z - y * 100\<bar> \<le> y * 100 / 9007199254740992" by simp
  have "\<bar>z - 100 * x\<bar> \<le> 100 * x / 2251799813685248"
    using z y yhi x0 by linarith
  then have "\<bar>z - 100 * x\<bar> \<le> 100 * x / 2 ^ 51" by simp
  then show ?thesis by (simp only: z_def y_def x_def times_divide_eq_right)
qed

text \<open>The entries before sorting, and the frequency list.\<close>

lemma frequency_entries_eq:
  "frequency_entries draws =
     Array_sort (\<lambda>a b. 0 < frequency_compare a b)
       (map (entry_of (length (concat draws)))
          (Object_entries (foldl increment [] (concat draws))))"
  by (simp add: frequency_entries_def tally_eq)

lemma number_entry_of: "number \<circ> entry_of n = fst"
  by (auto simp: entry_of_def fun_eq_iff)

lemma frequency_numbers:
  "distinct (map number (frequency_entries draws)) \<and>
   set (map number (frequency_entries draws)) = set (concat draws)"
proof -
  let ?oc = "foldl increment [] (concat draws)"
  have d: "distinct (map fst (Object_entries ?oc))"
    by (intro distinct_Object_entries distinct_keys_fold) simp
  have s: "fst ` set (Object_entries ?oc) = set (concat draws)"
    using set_keys_fold [of "[]" "concat draws"] by (simp add: set_Object_entries)
  have "set (map number (frequency_entries draws)) =
        number ` set (map (entry_of (length (concat draws))) (Object_entries ?oc))"
    by (simp only: frequency_entries_eq set_map set_Array_sort)
  also have "\<dots> = (number \<circ> entry_of (length (concat draws))) ` set (Object_entries ?oc)"
    by (simp only: set_map image_comp)
  also have "\<dots> = set (concat draws)"
    by (simp only: number_entry_of s)
  finally show ?thesis
    using d by (simp add: frequency_entries_eq distinct_Array_sort number_entry_of)
qed

lemma frequency_entry:
  assumes "e \<in> set (frequency_entries draws)"
  shows "count e = count_list (concat draws) (number e) \<and>
         0 < count e \<and> count e \<le> length (concat draws) \<and>
         percentage e =
           double_round (double_round (of_nat (count e) / of_nat (length (concat draws))) * 100)"
proof -
  let ?oc = "foldl increment [] (concat draws)"
  let ?n = "length (concat draws)"
  from assms obtain k c where kc: "(k, c) \<in> set ?oc" and e: "e = entry_of ?n (k, c)"
    by (auto simp: frequency_entries_eq set_Array_sort set_Object_entries)
  have "distinct (map fst ?oc)" by (intro distinct_keys_fold) simp
  with kc have m: "map_of ?oc k = Some c" by simp
  have "k \<in> fst ` set ?oc" using kc by force
  then have k: "k \<in> set (concat draws)" by (simp add: set_keys_fold)
  with m have c: "c = count_list (concat draws) k" by (simp add: map_of_fold)
  from k have "0 < ?n" by (cases "concat draws") auto
  moreover from k have "count_list (concat draws) k \<noteq> 0" by (simp add: count_list_0_iff)
  moreover have "count_list (concat draws) k \<le> ?n" by (rule count_le_length)
  ultimately show ?thesis using e c by (simp add: entry_of_def)
qed

lemma sorted_wrt_distinct:
  assumes "sorted_wrt P xs" and "distinct (map f xs)"
    and "\<And>a b. P a b \<Longrightarrow> f a \<noteq> f b \<Longrightarrow> Q a b"
  shows "sorted_wrt Q xs"
  using assms(1,2)
proof (induction xs)
  case Nil
  show ?case by simp
next
  case (Cons a xs)
  have "Q a y" if "y \<in> set xs" for y
  proof (rule assms(3))
    show "P a y" using Cons.prems(1) that by simp
    show "f a \<noteq> f y" using Cons.prems(2) that by auto
  qed
  with Cons show ?case by simp
qed

lemma frequency_sorted:
  "sorted_wrt (\<lambda>a b. count b < count a \<or> (count a = count b \<and> number a < number b))
     (frequency_entries draws)"
proof (rule sorted_wrt_distinct [where f = number])
  show "sorted_wrt (\<lambda>a b. \<not> 0 < frequency_compare a b) (frequency_entries draws)"
    unfolding frequency_entries_eq
    by (rule sorted_Array_sort) (auto simp: frequency_compare_def Let_def split: if_splits)
  show "distinct (map number (frequency_entries draws))"
    using frequency_numbers by blast
  show "count b < count a \<or> (count a = count b \<and> number a < number b)"
    if "\<not> 0 < frequency_compare a b" and "number a \<noteq> number b" for a b
    using that by (auto simp: frequency_compare_def Let_def split: if_splits)
qed

lemma frequencyData_effect:
  "frequencyData (frequency_effect st) = frequency_entries (recentDraws st)"
proof (cases "recentDraws st = []")
  case True
  then show ?thesis
    by (simp add: frequency_effect_def frequency_entries_def tally_def Object_entries_def
        Array_sort_def)
next
  case False
  then show ?thesis by (simp add: frequency_effect_def Let_def)
qed

lemma frequency_example:
  "frequency_entries [[1, 2, 3], [1, 2, 3], [4, 5, 6]] =
     [\<lparr>number = 1, count = 2, percentage = 3127499741229511 / 140737488355328\<rparr>,
      \<lparr>number = 2, count = 2, percentage = 3127499741229511 / 140737488355328\<rparr>,
      \<lparr>number = 3, count = 2, percentage = 3127499741229511 / 140737488355328\<rparr>,
      \<lparr>number = 4, count = 1, percentage = 3127499741229511 / 281474976710656\<rparr>,
      \<lparr>number = 5, count = 1, percentage = 3127499741229511 / 281474976710656\<rparr>,
      \<lparr>number = 6, count = 1, percentage = 3127499741229511 / 281474976710656\<rparr>]"
  by code_simp

text \<open>
  C2, as amended. The frequency list that the effect stores has one entry for every
  distinct value of the draws; the count of an entry is the number of occurrences of its
  value in all the draws; its percentage is the double \<^verbatim>\<open>(count / totalCount) * 100\<close>, that
  is the quotient of the count by the total number of digits rounded to a double, times
  100, rounded to a double, which for fewer than \<open>2^53\<close> digits is within \<open>2^-51\<close> of
  \<open>100 * count / totalCount\<close>, relatively; the list is ordered by descending count and,
  for equal counts, by ascending value. For the draws \<open>[[1,2,3],[1,2,3],[4,5,6]]\<close> the
  digit 1 has count 2 and the percentage 22.22222222222222, which is the double
  \<open>3127499741229511 / 2^47\<close>, the digit 2 has count 2, and 1 comes before 2.
\<close>

theorem frequency_analysis:
  "distinct (map number (frequencyData (frequency_effect st))) \<and>
   set (map number (frequencyData (frequency_effect st))) = set (concat (recentDraws st)) \<and>
   (\<forall>e \<in> set (frequencyData (frequency_effect st)).
      count e = count_list (concat (recentDraws st)) (number e) \<and>
      percentage e =
        double_round
          (double_round (of_nat (count e) / of_nat (length (concat (recentDraws st)))) * 100)) \<and>
   (length (concat (recentDraws st)) < 2 ^ 53 \<longrightarrow>
      (\<forall>e \<in> set (frequencyData (frequency_effect st)).
         \<bar>percentage e - 100 * of_nat (count e) / of_nat (length (concat (recentDraws st)))\<bar>
           \<le> (100 * of_nat (count e) / of_nat (length (concat (recentDraws st)))) / 2 ^ 51)) \<and>
   sorted_wrt (\<lambda>a b. count b < count a \<or> (count a = count b \<and> number a < number b))
     (frequencyData (frequency_effect st)) \<and>
   take 2 (frequency_entries [[1, 2, 3], [1, 2, 3], [4, 5, 6]]) =
     [\<lparr>number = 1, count = 2, percentage = 3127499741229511 / 2 ^ 47\<rparr>,
      \<lparr>number = 2, count = 2, percentage = 3127499741229511 / 2 ^ 47\<rparr>]"
proof -
  let ?F = "frequencyData (frequency_effect st)"
  let ?all = "concat (recentDraws st)"
  have F: "?F = frequency_entries (recentDraws st)" by (rule frequencyData_effect)
  have entry: "count e = count_list ?all (number e) \<and>
      percentage e = double_round (double_round (of_nat (count e) / of_nat (length ?all)) * 100)"
    if "e \<in> set ?F" for e
    using frequency_entry [of e "recentDraws st"] that by (simp add: F)
  have bound: "\<bar>percentage e - 100 * of_nat (count e) / of_nat (length ?all)\<bar>
           \<le> (100 * of_nat (count e) / of_nat (length ?all)) / 2 ^ 51"
    if "e \<in> set ?F" and "length ?all < 2 ^ 53" for e
  proof -
    from frequency_entry [of e "recentDraws st"] that(1)
    have c: "0 < count e" "count e \<le> length ?all"
      and p: "percentage e =
        double_round (double_round (of_nat (count e) / of_nat (length ?all)) * 100)"
      by (simp_all add: F)
    show ?thesis unfolding p by (rule percentage_error [OF c that(2)])
  qed
  have ex: "take 2 (frequency_entries [[1, 2, 3], [1, 2, 3], [4, 5, 6]]) =
     [\<lparr>number = 1, count = 2, percentage = 3127499741229511 / 2 ^ 47\<rparr>,
      \<lparr>number = 2, count = 2, percentage = 3127499741229511 / 2 ^ 47\<rparr>]"
    by (simp add: frequency_example)
  have A1: "distinct (map number ?F)" and A2: "set (map number ?F) = set ?all"
    using frequency_numbers [of "recentDraws st"] by (simp_all only: F)
  have A3: "\<forall>e \<in> set ?F.
      count e = count_list ?all (number e) \<and>
      percentage e = double_round (double_round (of_nat (count e) / of_nat (length ?all)) * 100)"
    using entry by blast
  have A4: "length ?all < 2 ^ 53 \<longrightarrow>
      (\<forall>e \<in> set ?F.
         \<bar>percentage e - 100 * of_nat (count e) / of_nat (length ?all)\<bar>
           \<le> (100 * of_nat (count e) / of_nat (length ?all)) / 2 ^ 51)"
    using bound by blast
  have A5: "sorted_wrt (\<lambda>a b. count b < count a \<or> (count a = count b \<and> number a < number b)) ?F"
    using frequency_sorted [of "recentDraws st"] by (simp only: F)
  from A1 A2 A3 A4 A5 ex show ?thesis by (intro conjI)
qed

text \<open>
  The claim as stated, that the percentage is \<open>100 * count / totalCount\<close>, fails for the
  single draw \<open>[1,2,3]\<close>: the percentage of each digit is the double 33.33333333333333,
  which is neither the fraction \<open>100/3\<close> nor the double 33.333333333333336 that
  \<^verbatim>\<open>100 * 1 / 3\<close> gives.
\<close>

theorem frequency_analysis_counterexample:
  "map percentage (frequencyData (frequency_effect (initial_state\<lparr>recentDraws := [[1, 2, 3]]\<rparr>)))
     = [2345624805922133 / 2 ^ 46, 2345624805922133 / 2 ^ 46, 2345624805922133 / 2 ^ 46] \<and>
   (2345624805922133 / 2 ^ 46 :: rat) \<noteq> 100 * 1 / 3 \<and>
   (2345624805922133 / 2 ^ 46 :: rat) \<noteq> double_round (double_round (100 * 1) / 3)"
proof -
  have e: "frequency_entries [[1, 2, 3]] =
     [\<lparr>number = 1, count = 1, percentage = 2345624805922133 / 70368744177664\<rparr>,
      \<lparr>number = 2, count = 1, percentage = 2345624805922133 / 70368744177664\<rparr>,
      \<lparr>number = 3, count = 1, percentage = 2345624805922133 / 70368744177664\<rparr>]"
    by code_simp
  have d: "double_round (double_round 100 / 3) = 4691249611844267 / 140737488355328"
    by code_simp
  show ?thesis by (simp add: frequencyData_effect e d)
qed

theorem frequency_analysis_witness:
  "frequencyData (frequency_effect (initial_state\<lparr>recentDraws := [[1, 2, 3], [1, 2, 3], [4, 5, 6]]\<rparr>))
     = [\<lparr>number = 1, count = 2, percentage = 3127499741229511 / 140737488355328\<rparr>,
        \<lparr>number = 2, count = 2, percentage = 3127499741229511 / 140737488355328\<rparr>,
        \<lparr>number = 3, count = 2, percentage = 3127499741229511 / 140737488355328\<rparr>,
        \<lparr>number = 4, count = 1, percentage = 3127499741229511 / 281474976710656\<rparr>,
        \<lparr>number = 5, count = 1, percentage = 3127499741229511 / 281474976710656\<rparr>,
        \<lparr>number = 6, count = 1, percentage = 3127499741229511 / 281474976710656\<rparr>] \<and>
   list_all (\<lambda>e. count e = count_list [1, 2, 3, 1, 2, 3, 4, 5, 6] (number e) \<and>
                  percentage e = double_round (double_round (of_nat (count e) / 9) * 100) \<and>
                  \<bar>percentage e - 100 * of_nat (count e) / 9\<bar>
                    \<le> (100 * of_nat (count e) / 9) / 2 ^ 51)
     (frequencyData (frequency_effect
        (initial_state\<lparr>recentDraws := [[1, 2, 3], [1, 2, 3], [4, 5, 6]]\<rparr>)))"
proof -
  let ?st = "initial_state\<lparr>recentDraws := [[1, 2, 3], [1, 2, 3], [4, 5, 6]]\<rparr>"
  have F: "frequencyData (frequency_effect ?st)
     = [\<lparr>number = 1, count = 2, percentage = 3127499741229511 / 140737488355328\<rparr>,
        \<lparr>number = 2, count = 2, percentage = 3127499741229511 / 140737488355328\<rparr>,
        \<lparr>number = 3, count = 2, percentage = 3127499741229511 / 140737488355328\<rparr>,
        \<lparr>number = 4, count = 1, percentage = 3127499741229511 / 281474976710656\<rparr>,
        \<lparr>number = 5, count = 1, percentage = 3127499741229511 / 281474976710656\<rparr>,
        \<lparr>number = 6, count = 1, percentage = 3127499741229511 / 281474976710656\<rparr>]"
    by (simp add: frequencyData_effect frequency_example)
  have len: "length (concat (recentDraws ?st)) < 2 ^ 53" by simp
  note T = frequency_analysis [of ?st]
  have 1: "\<forall>e \<in> set (frequencyData (frequency_effect ?st)).
      count e = count_list (concat (recentDraws ?st)) (number e) \<and>
      percentage e =
        double_round
          (double_round (of_nat (count e) / of_nat (length (concat (recentDraws ?st)))) * 100)"
    using T by blast
  have 2: "\<forall>e \<in> set (frequencyData (frequency_effect ?st)).
         \<bar>percentage e - 100 * of_nat (count e) / of_nat (length (concat (recentDraws ?st)))\<bar>
           \<le> (100 * of_nat (count e) / of_nat (length (concat (recentDraws ?st)))) / 2 ^ 51"
    using T len by blast
  have c: "concat (recentDraws ?st) = [1, 2, 3, 1, 2, 3, 4, 5, 6]" by simp
  have n: "(of_nat (length [1, 2, 3, 1, 2, 3, 4, 5, 6 :: int]) :: rat) = 9" by simp
  from 1 2 have "list_all (\<lambda>e. count e = count_list [1, 2, 3, 1, 2, 3, 4, 5, 6] (number e) \<and>
                  percentage e = double_round (double_round (of_nat (count e) / 9) * 100) \<and>
                  \<bar>percentage e - 100 * of_nat (count e) / 9\<bar>
                    \<le> (100 * of_nat (count e) / 9) / 2 ^ 51)
     (frequencyData (frequency_effect ?st))"
    unfolding list_all_iff c n by blast
  with F show ?thesis by (simp only: simp_thms)
qed

lemma selectedGame_3d: "selectedGame st = game_3d"
  by (simp add: selectedGame_def LOTTO_GAMES_def)

lemma slice0_take: "0 \<le> n \<Longrightarrow> slice0 n xs = take (nat n) xs"
  by (simp add: slice0_def Let_def min_def)

lemma hot_digits_sort:
  "0 \<le> toPick \<Longrightarrow> hot_digits toPick F = sort (map number (take (nat toPick) F))"
  by (simp only: hot_digits_def Array_sort_int slice0_take)

lemma hotDigits_effect:
  "hotDigitsPrediction (frequency_effect st) =
     hot_digits (numbersToPick (selectedGame st)) (frequencyData (frequency_effect st))"
proof (cases "recentDraws st = []")
  case True
  then show ?thesis
    by (simp add: frequency_effect_def hot_digits_def slice0_def Array_sort_def)
next
  case False
  then show ?thesis by (simp add: frequency_effect_def Let_def)
qed

lemma length_frequency_entries:
  "length (frequency_entries draws) = card (set (concat draws))"
proof -
  have d: "distinct (map number (frequency_entries draws))"
    and s: "set (map number (frequency_entries draws)) = set (concat draws)"
    using frequency_numbers [of draws] by blast+
  have "card (set (map number (frequency_entries draws))) =
        length (map number (frequency_entries draws))"
    using d by (rule distinct_card)
  then show ?thesis by (simp only: s length_map)
qed

text \<open>
  C6. The hot digits are the values of the first \<open>digitCount\<close> entries of the sorted
  frequency list, in ascending order; the selected game always picks 3. When fewer
  distinct values occur, the prediction has as many elements as there are distinct values
  (no error is raised), and for the empty collection the frequency list and the hot digits
  are both empty.
\<close>

theorem hot_digits_prediction:
  "(0 \<le> toPick \<longrightarrow> hot_digits toPick F = sort (map number (take (nat toPick) F))) \<and>
   numbersToPick (selectedGame st) = 3 \<and>
   hotDigitsPrediction (frequency_effect st) =
     sort (map number (take 3 (frequencyData (frequency_effect st)))) \<and>
   length (hotDigitsPrediction (frequency_effect st)) =
     min 3 (card (set (concat (recentDraws st)))) \<and>
   (recentDraws st = [] \<longrightarrow>
      frequencyData (frequency_effect st) = [] \<and> hotDigitsPrediction (frequency_effect st) = [])"
proof -
  have n: "numbersToPick (selectedGame st) = 3"
    by (simp add: selectedGame_3d game_3d_def)
  have h: "hotDigitsPrediction (frequency_effect st) =
     sort (map number (take 3 (frequencyData (frequency_effect st))))"
    using hot_digits_sort [of 3 "frequencyData (frequency_effect st)"]
    by (simp add: hotDigits_effect n)
  have "length (hotDigitsPrediction (frequency_effect st)) =
     min 3 (card (set (concat (recentDraws st))))"
    by (simp add: h frequencyData_effect length_frequency_entries min.commute)
  moreover have "frequencyData (frequency_effect st) = [] \<and>
      hotDigitsPrediction (frequency_effect st) = []" if "recentDraws st = []"
    using that by (simp add: frequency_effect_def)
  ultimately show ?thesis using n h hot_digits_sort [of toPick F] by simp
qed

theorem hot_digits_prediction_witness:
  "hotDigitsPrediction (frequency_effect
      (initial_state\<lparr>recentDraws := [[1, 2, 3], [1, 2, 3], [4, 5, 6]]\<rparr>)) = [1, 2, 3] \<and>
   hotDigitsPrediction (frequency_effect (initial_state\<lparr>recentDraws := [[5, 5, 5], [5, 1, 1]]\<rparr>))
     = [1, 5] \<and>
   frequencyData (frequency_effect initial_state) = [] \<and>
   hotDigitsPrediction (frequency_effect initial_state) = []"
proof -
  let ?s1 = "initial_state\<lparr>recentDraws := [[1, 2, 3], [1, 2, 3], [4, 5, 6]]\<rparr>"
  let ?s2 = "initial_state\<lparr>recentDraws := [[5, 5, 5], [5, 1, 1]]\<rparr>"
  have f2: "frequency_entries [[5, 5, 5], [5, 1, 1]] =
     [\<lparr>number = 5, count = 4, percentage = 2345624805922133 / 35184372088832\<rparr>,
      \<lparr>number = 1, count = 2, percentage = 2345624805922133 / 70368744177664\<rparr>]"
    by code_simp
  have 1: "hotDigitsPrediction (frequency_effect ?s1) = [1, 2, 3]"
    using hot_digits_prediction [of 3 "[]" ?s1]
    by (simp add: frequencyData_effect frequency_example)
  have 2: "hotDigitsPrediction (frequency_effect ?s2) = [1, 5]"
    using hot_digits_prediction [of 3 "[]" ?s2]
    by (simp add: frequencyData_effect f2)
  have 3: "frequencyData (frequency_effect initial_state) = [] \<and>
     hotDigitsPrediction (frequency_effect initial_state) = []"
    using hot_digits_prediction [of 3 "[]" initial_state]
    by (simp add: initial_state_def)
  from 1 2 3 show ?thesis by simp
qed

end
